theory Spec2Isabelle
  imports Complex_Main
begin

section \<open>JavaScript numbers\<close>

text \<open>
  The variant resolver of \<^verbatim>\<open>src/src/abn-resolver.utils.js\<close> computes with JavaScript
  numbers: IEEE 754 binary64 values. A number is modelled as not-a-number, one of the two
  infinities, or a finite value carried as a rational. The two zeros are one value
  \<open>Fin 0\<close>: the resolver adds, divides, compares and converts numbers; \<open>+0\<close> and \<open>-0\<close>
  add, compare and convert alike, and they differ only as divisors, where the resolver's
  one divisor \<open>totalWeight\<close> is a sum that starts from \<open>+0\<close> and so is never \<open>-0\<close>.

  Every arithmetic result is rounded to the nearest binary64 value, ties to even, by
  \<open>round_double\<close>; a result of magnitude \<open>2^1024\<close> or more after rounding overflows to an
  infinity, and results below the normal range are rounded on the subnormal grid
  \<open>2^-1074\<close>. The type holds every rational, so it has more values than binary64 has:
  a statement about all \<open>js_number\<close> values covers all JavaScript numbers.
\<close>

datatype js_number = NaN | PosInf | NegInf | Fin rat

function bit_length :: "int \<Rightarrow> int" where
  "bit_length n = (if n \<le> 0 then 0 else 1 + bit_length (n div 2))"
  by pat_completeness auto
termination
  by (relation "measure nat") auto

declare bit_length.simps [simp del]

definition pow2 :: "int \<Rightarrow> rat" where
  "pow2 e = (if 0 \<le> e then 2 ^ nat e else 1 / 2 ^ nat (- e))"

text \<open>\<open>floor_log2 q\<close> is the binary exponent of a positive \<open>q\<close>: \<open>2^e \<le> q < 2^(e+1)\<close>.\<close>

definition floor_log2 :: "rat \<Rightarrow> int" where
  "floor_log2 q =
     (let (a, b) = quotient_of q;
          d = bit_length a - bit_length b
      in if pow2 d \<le> q then d else d - 1)"

definition round_half_even :: "rat \<Rightarrow> int" where
  "round_half_even q =
     (let f = \<lfloor>q\<rfloor>; r = q - of_int f
      in if r < 1 / 2 then f
         else if 1 / 2 < r then f + 1
         else if even f then f else f + 1)"

definition round_double :: "rat \<Rightarrow> js_number" where
  "round_double q =
     (if q = 0 then Fin 0
      else
        let e = max (floor_log2 \<bar>q\<bar>) (- 1022);
            ulp = pow2 (e - 52);
            r = of_int (round_half_even (\<bar>q\<bar> / ulp)) * ulp
        in if pow2 1024 \<le> r then (if 0 < q then PosInf else NegInf)
           else Fin (sgn q * r))"

text \<open>
  The operators \<^verbatim>\<open>+\<close>, \<^verbatim>\<open>/\<close> and \<^verbatim>\<open><\<close> that the selector uses, and \<^verbatim>\<open>*\<close> and \<^verbatim>\<open><=\<close>, which
  only the statements about scaled weights and about intervals use.
\<close>

fun js_add :: "js_number \<Rightarrow> js_number \<Rightarrow> js_number" where
  "js_add NaN y = NaN"
| "js_add x NaN = NaN"
| "js_add PosInf NegInf = NaN"
| "js_add NegInf PosInf = NaN"
| "js_add PosInf y = PosInf"
| "js_add x PosInf = PosInf"
| "js_add NegInf y = NegInf"
| "js_add x NegInf = NegInf"
| "js_add (Fin a) (Fin b) = round_double (a + b)"

fun js_div :: "js_number \<Rightarrow> js_number \<Rightarrow> js_number" where
  "js_div NaN y = NaN"
| "js_div x NaN = NaN"
| "js_div PosInf PosInf = NaN"
| "js_div PosInf NegInf = NaN"
| "js_div NegInf PosInf = NaN"
| "js_div NegInf NegInf = NaN"
| "js_div PosInf (Fin b) = (if b < 0 then NegInf else PosInf)"
| "js_div NegInf (Fin b) = (if b < 0 then PosInf else NegInf)"
| "js_div (Fin a) PosInf = Fin 0"
| "js_div (Fin a) NegInf = Fin 0"
| "js_div (Fin a) (Fin b) =
     (if b = 0 then (if a = 0 then NaN else if 0 < a then PosInf else NegInf)
      else round_double (a / b))"

fun js_mul :: "js_number \<Rightarrow> js_number \<Rightarrow> js_number" where
  "js_mul NaN y = NaN"
| "js_mul x NaN = NaN"
| "js_mul PosInf PosInf = PosInf"
| "js_mul PosInf NegInf = NegInf"
| "js_mul NegInf PosInf = NegInf"
| "js_mul NegInf NegInf = PosInf"
| "js_mul PosInf (Fin b) = (if b = 0 then NaN else if 0 < b then PosInf else NegInf)"
| "js_mul NegInf (Fin b) = (if b = 0 then NaN else if 0 < b then NegInf else PosInf)"
| "js_mul (Fin a) PosInf = (if a = 0 then NaN else if 0 < a then PosInf else NegInf)"
| "js_mul (Fin a) NegInf = (if a = 0 then NaN else if 0 < a then NegInf else PosInf)"
| "js_mul (Fin a) (Fin b) = round_double (a * b)"

fun js_lt :: "js_number \<Rightarrow> js_number \<Rightarrow> bool" where
  "js_lt NaN y = False"
| "js_lt x NaN = False"
| "js_lt x NegInf = False"
| "js_lt PosInf y = False"
| "js_lt NegInf y = True"
| "js_lt (Fin a) PosInf = True"
| "js_lt (Fin a) (Fin b) = (a < b)"

fun js_le :: "js_number \<Rightarrow> js_number \<Rightarrow> bool" where
  "js_le NaN y = False"
| "js_le x NaN = False"
| "js_le NegInf y = True"
| "js_le x PosInf = True"
| "js_le x NegInf = False"
| "js_le PosInf y = False"
| "js_le (Fin a) (Fin b) = (a \<le> b)"

subsection \<open>Facts about rounding\<close>

lemma pow2_pos [simp]: "0 < pow2 e"
  by (simp add: pow2_def)

lemma pow2_neq0 [simp]: "pow2 e \<noteq> 0"
  by (simp add: pow2_def)

lemma abs_pow2 [simp]: "\<bar>pow2 e\<bar> = pow2 e"
  by (simp add: pow2_def)

lemma pow2_powi: "pow2 e = 2 powi e"
  by (simp add: pow2_def power_int_def field_simps)

lemma pow2_add: "pow2 (a + b) = pow2 a * pow2 b"
  by (simp add: pow2_powi power_int_add)

lemma pow2_diff: "pow2 (a - b) = pow2 a / pow2 b"
  by (simp add: pow2_powi power_int_diff)

lemma pow2_mono: "a \<le> b \<Longrightarrow> pow2 a \<le> pow2 b"
  by (simp add: pow2_powi power_int_increasing)

lemma pow2_strict_mono: "a < b \<Longrightarrow> pow2 a < pow2 b"
  by (simp add: pow2_powi power_int_strict_increasing)

lemma pow2_less_iff: "pow2 a < pow2 b \<longleftrightarrow> a < b"
  using pow2_strict_mono [of a b] pow2_mono [of b a] by (auto simp: not_le [symmetric])

lemma pow2_le_iff: "pow2 a \<le> pow2 b \<longleftrightarrow> a \<le> b"
  using pow2_less_iff [of b a] by (auto simp: not_less [symmetric])

lemma pow2_nat: "pow2 (int n) = 2 ^ n"
  by (simp add: pow2_def)

lemma pow2_int_le: "0 \<le> k \<Longrightarrow> pow2 k \<le> of_int a \<longleftrightarrow> 2 ^ nat k \<le> a"
proof -
  assume "0 \<le> k"
  then have "pow2 k = of_int (2 ^ nat k)" by (simp add: pow2_def)
  then show ?thesis by (simp only: of_int_le_iff)
qed

lemma pow2_int_less: "0 \<le> k \<Longrightarrow> of_int a < pow2 k \<longleftrightarrow> a < 2 ^ nat k"
proof -
  assume "0 \<le> k"
  then have "pow2 k = of_int (2 ^ nat k)" by (simp add: pow2_def)
  then show ?thesis by (simp only: of_int_less_iff)
qed

lemma pow2_int_abs_less: "0 \<le> k \<Longrightarrow> \<bar>of_int a\<bar> < pow2 k \<longleftrightarrow> \<bar>a\<bar> < 2 ^ nat k"
  using pow2_int_less [of k "\<bar>a\<bar>"] by simp

lemma bit_length_bounds:
  "0 < n \<Longrightarrow> 2 ^ nat (bit_length n - 1) \<le> n \<and> n < 2 ^ nat (bit_length n) \<and> 0 < bit_length n"
proof (induction n rule: bit_length.induct)
  case (1 n)
  show ?case
  proof (cases "n div 2 = 0")
    case True
    with 1 have "n = 1" by presburger
    then show ?thesis
      by (simp add: bit_length.simps [of 1] bit_length.simps [of 0])
  next
    case False
    with 1 have pos: "0 < n div 2" by presburger
    let ?k = "bit_length (n div 2)"
    from 1 pos have ih: "2 ^ nat (?k - 1) \<le> n div 2" "n div 2 < 2 ^ nat ?k" "0 < ?k"
      by auto
    have bl: "bit_length n = 1 + ?k"
      using 1(2) by (subst bit_length.simps) simp
    have e1: "nat ?k = Suc (nat (?k - 1))"
      using ih(3) by simp
    have e2: "nat (1 + ?k) = Suc (nat ?k)"
      using ih(3) by simp
    have "2 * 2 ^ nat (?k - 1) \<le> n"
      using ih(1) by presburger
    then have "2 ^ nat ?k \<le> n"
      by (subst e1) simp
    moreover have "n < 2 * 2 ^ nat ?k"
      using ih(2) by presburger
    ultimately show ?thesis
      using ih(3) by (simp add: bl e2)
  qed
qed

lemma quotient_of_pos:
  assumes "0 < q" "quotient_of q = (a, b)"
  shows "0 < a" "0 < b" "q = of_int a / of_int b"
proof -
  show b: "0 < b" using assms(2) by (rule quotient_of_denom_pos)
  show q: "q = of_int a / of_int b" using assms(2) by (rule quotient_of_div)
  show "0 < a"
    using assms(1) b unfolding q by (simp add: zero_less_divide_iff)
qed

lemma floor_log2_bounds:
  assumes "0 < q"
  shows "pow2 (floor_log2 q) \<le> q \<and> q < pow2 (floor_log2 q + 1)"
proof -
  obtain a b where ab: "quotient_of q = (a, b)" by (cases "quotient_of q")
  note p = quotient_of_pos [OF assms ab]
  let ?la = "bit_length a" and ?lb = "bit_length b"
  let ?d = "?la - ?lb"
  have A: "2 ^ nat (?la - 1) \<le> a" "a < 2 ^ nat ?la" "0 < ?la"
    using bit_length_bounds [OF p(1)] by auto
  have B: "2 ^ nat (?lb - 1) \<le> b" "b < 2 ^ nat ?lb" "0 < ?lb"
    using bit_length_bounds [OF p(2)] by auto
  have ra: "pow2 (?la - 1) \<le> of_int a" "of_int a < pow2 ?la"
    using A by (simp_all add: pow2_int_le pow2_int_less)
  have rb: "pow2 (?lb - 1) \<le> of_int b" "of_int b < pow2 ?lb"
    using B by (simp_all add: pow2_int_le pow2_int_less)
  have bpos: "(0::rat) < of_int b" using p(2) by simp
  have lo: "pow2 (?d - 1) < q"
  proof -
    have "pow2 (?d - 1) * of_int b < pow2 (?d - 1) * pow2 ?lb"
      using rb(2) by simp
    also have "\<dots> = pow2 (?la - 1)"
      by (simp add: pow2_add [symmetric])
    also have "\<dots> \<le> of_int a" by (rule ra(1))
    finally show ?thesis
      using bpos unfolding p(3) by (simp add: pos_less_divide_eq)
  qed
  have hi: "q < pow2 (?d + 1)"
  proof -
    have "of_int a < pow2 ?la" by (rule ra(2))
    also have "\<dots> = pow2 (?d + 1) * pow2 (?lb - 1)"
      by (simp add: pow2_add [symmetric])
    also have "\<dots> \<le> pow2 (?d + 1) * of_int b"
      using rb(1) by simp
    finally show ?thesis
      using bpos unfolding p(3) by (simp add: pos_divide_less_eq)
  qed
  have fl: "floor_log2 q = (if pow2 ?d \<le> q then ?d else ?d - 1)"
    by (simp add: floor_log2_def ab)
  show ?thesis
  proof (cases "pow2 ?d \<le> q")
    case True
    then show ?thesis using hi by (simp add: fl)
  next
    case False
    then show ?thesis using lo by (simp add: fl)
  qed
qed

lemma floor_log2_eqI:
  assumes "pow2 e \<le> q" "q < pow2 (e + 1)"
  shows "floor_log2 q = e"
proof -
  have q: "0 < q" using assms(1) pow2_pos [of e] by linarith
  note b = floor_log2_bounds [OF q]
  have "pow2 e < pow2 (floor_log2 q + 1)" using assms(1) b by linarith
  moreover have "pow2 (floor_log2 q) < pow2 (e + 1)" using assms(2) b by linarith
  ultimately show ?thesis by (simp add: pow2_less_iff)
qed

lemma round_half_even_of_int [simp]: "round_half_even (of_int n) = n"
  by (simp add: round_half_even_def)

text \<open>A value \<open>m * 2^e\<close> with a 53-bit \<open>m\<close> in the binary64 range is a binary64 value:
  rounding leaves it unchanged.\<close>

lemma round_double_exact:
  assumes m: "\<bar>m\<bar> < 2 ^ 53" and e: "- 1074 \<le> e"
    and fin: "\<bar>of_int m * pow2 e\<bar> < pow2 1024"
  shows "round_double (of_int m * pow2 e) = Fin (of_int m * pow2 e)"
proof (cases "m = 0")
  case True
  then show ?thesis by (simp add: round_double_def)
next
  case False
  let ?q = "of_int m * pow2 e :: rat"
  have q0: "?q \<noteq> 0" using False by simp
  have aq: "\<bar>?q\<bar> = \<bar>of_int m\<bar> * pow2 e"
    by (simp add: abs_mult)
  have pos: "0 < \<bar>?q\<bar>" using q0 by simp
  let ?f = "floor_log2 \<bar>?q\<bar>"
  let ?E = "max ?f (- 1022)"
  have "\<bar>of_int m :: rat\<bar> < pow2 53"
    using m by (simp add: pow2_int_abs_less)
  then have "\<bar>?q\<bar> < pow2 53 * pow2 e"
    unfolding aq using pow2_pos [of e] by simp
  then have "\<bar>?q\<bar> < pow2 (53 + e)" by (simp add: pow2_add)
  with floor_log2_bounds [OF pos] have "pow2 ?f < pow2 (53 + e)" by linarith
  then have f: "?f - 52 \<le> e" by (simp add: pow2_less_iff)
  have E: "?E - 52 \<le> e" using f e by (simp add: max_def)
  define u where "u = pow2 (?E - 52)"
  define k where "k = nat (e - (?E - 52))"
  have u: "0 < u" by (simp add: u_def)
  have ek: "e = (?E - 52) + int k" using E by (simp add: k_def)
  have pe: "pow2 e = u * 2 ^ k"
    unfolding u_def by (subst ek) (simp only: pow2_add pow2_nat)
  have aq': "\<bar>?q\<bar> = \<bar>of_int m\<bar> * (u * 2 ^ k)"
    using aq by (simp only: pe)
  have "\<bar>?q\<bar> / u = \<bar>of_int m\<bar> * (u * 2 ^ k) / u"
    by (simp only: aq')
  also have "\<dots> = of_int (\<bar>m\<bar> * 2 ^ k)"
    using u by simp
  finally have quot: "\<bar>?q\<bar> / u = of_int (\<bar>m\<bar> * 2 ^ k)" .
  have "of_int (\<bar>m\<bar> * 2 ^ k) * u = \<bar>of_int m\<bar> * (u * 2 ^ k)"
    by simp
  also have "\<dots> = \<bar>?q\<bar>" by (simp only: aq')
  finally have r: "of_int (round_half_even (\<bar>?q\<bar> / u)) * u = \<bar>?q\<bar>"
    unfolding quot round_half_even_of_int .
  have s: "sgn ?q * \<bar>?q\<bar> = ?q" by (simp add: sgn_mult_abs)
  have "round_double ?q =
      (if pow2 1024 \<le> of_int (round_half_even (\<bar>?q\<bar> / u)) * u
       then (if 0 < ?q then PosInf else NegInf)
       else Fin (sgn ?q * (of_int (round_half_even (\<bar>?q\<bar> / u)) * u)))"
    unfolding u_def using q0 by (simp add: round_double_def Let_def)
  also have "\<dots> = Fin ?q"
    unfolding r s using fin by (simp only: not_le [symmetric] if_False simp_thms)
  finally show ?thesis .
qed

lemma round_double_of_int:
  "\<bar>n\<bar> < 2 ^ 53 \<Longrightarrow> round_double (of_int n) = Fin (of_int n)"
proof -
  assume n: "\<bar>n\<bar> < 2 ^ 53"
  have "\<bar>of_int n :: rat\<bar> < pow2 53" using n by (simp add: pow2_int_abs_less)
  also have "pow2 53 < pow2 1024" by (simp add: pow2_less_iff)
  finally have "\<bar>of_int n * pow2 0\<bar> < pow2 1024" by (simp add: pow2_def)
  from round_double_exact [OF n _ this] show ?thesis by (simp add: pow2_def)
qed

lemma round_double_pow2:
  assumes "- 1074 \<le> e" "e < 1024"
  shows "round_double (pow2 e) = Fin (pow2 e)"
proof -
  have "\<bar>of_int 1 * pow2 e\<bar> < pow2 1024"
    using assms(2) by (simp add: pow2_less_iff)
  from round_double_exact [of 1 e, OF _ assms(1) this] show ?thesis by simp
qed

text \<open>Overflow: \<open>2^1024\<close> and every larger power of two rounds to \<open>Infinity\<close>.\<close>

lemma round_double_overflow:
  assumes "1024 \<le> e"
  shows "round_double (pow2 e) = PosInf"
proof -
  have f: "floor_log2 \<bar>pow2 e\<bar> = e"
    by (intro floor_log2_eqI) (simp_all add: pow2_le_iff pow2_less_iff)
  have E: "max e (- 1022) = e" using assms by simp
  have "pow2 e / pow2 (e - 52) = pow2 52"
    using pow2_diff [of e "e - 52"] by simp
  also have "\<dots> = of_int (2 ^ 52)" by (simp add: pow2_def)
  finally have quot: "\<bar>pow2 e\<bar> / pow2 (e - 52) = of_int (2 ^ 52)"
    by simp
  have "of_int (2 ^ 52) * pow2 (e - 52) = pow2 52 * pow2 (e - 52)"
    by (simp add: pow2_def)
  also have "\<dots> = pow2 e" by (simp add: pow2_add [symmetric])
  finally have r: "of_int (round_half_even (\<bar>pow2 e\<bar> / pow2 (e - 52))) * pow2 (e - 52) = pow2 e"
    unfolding quot round_half_even_of_int .
  have "pow2 1024 \<le> pow2 e" using assms by (simp add: pow2_le_iff)
  then show ?thesis
    unfolding round_double_def Let_def f E r by simp
qed

text \<open>Rounding a value whose binary exponent \<open>e\<close> is known, in the range without overflow.\<close>

lemma floor_numeral_div:
  "\<lfloor>numeral a / numeral b :: rat\<rfloor> = numeral a div numeral b"
  using floor_divide_of_int_eq [of "numeral a" "numeral b", where ?'a = rat] by simp

lemma round_half_even_le: "round_half_even x \<le> \<lfloor>x\<rfloor> + 1"
  by (simp add: round_half_even_def Let_def)

lemma round_double_at:
  assumes "pow2 e \<le> \<bar>q\<bar>" and "\<bar>q\<bar> < pow2 (e + 1)" and "- 1022 \<le> e" and "e < 1023"
  shows "round_double q =
     Fin (sgn q * (of_int (round_half_even (\<bar>q\<bar> / pow2 (e - 52))) * pow2 (e - 52)))"
proof -
  let ?u = "pow2 (e - 52)"
  let ?n = "round_half_even (\<bar>q\<bar> / ?u)"
  have "0 < \<bar>q\<bar>" using assms(1) pow2_pos [of e] by linarith
  then have q: "q \<noteq> 0" by simp
  have f: "floor_log2 \<bar>q\<bar> = e" using assms(1,2) by (rule floor_log2_eqI)
  have e1: "pow2 (e + 1) = pow2 53 * ?u"
    using pow2_add [of 53 "e - 52"] by (simp add: add.commute)
  from e1 have "\<bar>q\<bar> / ?u < pow2 53"
    using assms(2) by (simp add: pos_divide_less_eq)
  also have "pow2 53 = of_int (2 ^ 53)" by (simp add: pow2_def)
  finally have "\<lfloor>\<bar>q\<bar> / ?u\<rfloor> < 2 ^ 53" by (simp only: floor_less_iff)
  with round_half_even_le [of "\<bar>q\<bar> / ?u"] have "?n \<le> 2 ^ 53" by linarith
  then have "(of_int ?n :: rat) \<le> of_int (2 ^ 53)" by (simp only: of_int_le_iff)
  also have "(of_int (2 ^ 53) :: rat) = pow2 53" by (simp add: pow2_def)
  finally have "of_int ?n * ?u \<le> pow2 53 * ?u" by simp
  also have "pow2 53 * ?u = pow2 (e + 1)" by (simp only: e1)
  also have "pow2 (e + 1) < pow2 1024" using assms(4) by (simp add: pow2_less_iff)
  finally have "\<not> pow2 1024 \<le> of_int ?n * ?u" by simp
  then show ?thesis
    using q assms(3) by (simp add: round_double_def Let_def f max_def)
qed

text \<open>
  Two checks of the arithmetic against familiar binary64 results: the literal \<^verbatim>\<open>0.1\<close> is
  \<open>3602879701896397 / 2^55\<close>, and \<^verbatim>\<open>0.1 + 0.2\<close> is \<^verbatim>\<open>0.30000000000000004\<close>, a tie that
  rounds to the even significand.
\<close>

lemma round_double_tenth:
  "round_double (1 / 10) = Fin (3602879701896397 / 2 ^ 55)"
  by (subst round_double_at [of "- 4"]) (simp_all add: pow2_def round_half_even_def Let_def floor_numeral_div)

lemma js_add_tenth_fifth:
  "js_add (Fin (3602879701896397 / 2 ^ 55)) (Fin (3602879701896397 / 2 ^ 54))
     = Fin (5404319552844596 / 2 ^ 54)"
  by (simp, subst round_double_at [of "- 2"]) (simp_all add: pow2_def round_half_even_def Let_def floor_numeral_div)

section \<open>The weighted variant selector\<close>

text \<open>
  An exception is a value: \<open>Error m\<close> is \<^verbatim>\<open>new Error(m)\<close>, the one error the module throws
  itself, and \<open>TypeError\<close> is the error the language raises when a property of
  \<^verbatim>\<open>null\<close> or \<^verbatim>\<open>undefined\<close> is read, or when \<^verbatim>\<open>String\<close> or \<^verbatim>\<open>Number\<close> is applied to an object
  that cannot be converted to a primitive. A function that can throw returns
  \<open>js_error + 'a\<close>, with \<open>Inl\<close> the exception.
\<close>

datatype js_error = Error string | TypeError

text \<open>
  \<^verbatim>\<open>selectVariant(bucket, variants)\<close> takes records with an \<^verbatim>\<open>id\<close> and a numeric
  \<^verbatim>\<open>weight\<close>; records with further fields (a page variant's \<^verbatim>\<open>sections\<close>) are
  accepted as they are, which the record scheme \<open>('i, 'm) variant_scheme\<close> expresses.
  The field \<^verbatim>\<open>id\<close> is named \<open>variant_id\<close>. \<open>totalWeight\<close> is the \<^verbatim>\<open>reduce\<close> of line 24,
  \<open>selectVariant_loop\<close> the \<^verbatim>\<open>for\<close> loop of lines 26 to 31 with its running
  \<^verbatim>\<open>cumulative\<close>, and the fallback of line 33 is the last element of the list.
\<close>

record 'i variant =
  variant_id :: 'i
  weight :: js_number

definition totalWeight :: "('i, 'm) variant_scheme list \<Rightarrow> js_number" where
  "totalWeight variants = foldl (\<lambda>acc v. js_add acc (weight v)) (Fin 0) variants"

fun selectVariant_loop ::
  "js_number \<Rightarrow> js_number \<Rightarrow> js_number \<Rightarrow> ('i, 'm) variant_scheme list \<Rightarrow> 'i option" where
  "selectVariant_loop bucket total_weight cumulative [] = None"
| "selectVariant_loop bucket total_weight cumulative (variant # rest) =
     (let cumulative' = js_add cumulative (js_div (weight variant) total_weight)
      in if js_lt bucket cumulative' then Some (variant_id variant)
         else selectVariant_loop bucket total_weight cumulative' rest)"

definition selectVariant :: "js_number \<Rightarrow> ('i, 'm) variant_scheme list \<Rightarrow> js_error + 'i" where
  "selectVariant bucket variants =
     (if length variants = 0
      then Inl (Error ''selectVariant: variants array must not be empty'')
      else case selectVariant_loop bucket (totalWeight variants) (Fin 0) variants of
             Some i \<Rightarrow> Inr i
           | None \<Rightarrow> Inr (variant_id (variants ! (length variants - 1))))"

text \<open>
  The specification's cumulative normalized weight of the variant at index \<open>i\<close>, written from
  the specification and not from the code: \<open>sumOfWeights\<close> is the specification's
  \<^verbatim>\<open>sum(weight)\<close>, the weights added in list order from \<open>0\<close>; \<open>normalizedWeights\<close> is the
  list of the quotients \<^verbatim>\<open>weight / sum(weight)\<close>; and \<open>cumulativeWeight variants i\<close> is the
  running sum of the normalized weights up to and including index \<open>i\<close>, again added in list
  order from \<open>0\<close>. All three use the arithmetic of JavaScript numbers.
\<close>

definition sumOfWeights :: "('i, 'm) variant_scheme list \<Rightarrow> js_number" where
  "sumOfWeights variants = foldl js_add (Fin 0) (map weight variants)"

definition normalizedWeights :: "('i, 'm) variant_scheme list \<Rightarrow> js_number list" where
  "normalizedWeights variants = map (\<lambda>v. js_div (weight v) (sumOfWeights variants)) variants"

definition cumulativeWeight :: "('i, 'm) variant_scheme list \<Rightarrow> nat \<Rightarrow> js_number" where
  "cumulativeWeight variants i = foldl js_add (Fin 0) (take (Suc i) (normalizedWeights variants))"

text \<open>
  The value of the loop's variable \<^verbatim>\<open>cumulative\<close> after the variants \<open>vs\<close>, started at \<open>c\<close>
  with the divisor \<open>total_weight\<close>.
\<close>

definition cumulativeFrom ::
  "js_number \<Rightarrow> js_number \<Rightarrow> ('i, 'm) variant_scheme list \<Rightarrow> js_number" where
  "cumulativeFrom total_weight c vs =
     foldl (\<lambda>c v. js_add c (js_div (weight v) total_weight)) c vs"

lemma totalWeight_sumOfWeights: "totalWeight variants = sumOfWeights variants"
  by (simp add: totalWeight_def sumOfWeights_def foldl_map)

lemma cumulativeWeight_loop:
  "cumulativeWeight variants i =
     cumulativeFrom (totalWeight variants) (Fin 0) (take (Suc i) variants)"
  by (simp add: cumulativeWeight_def cumulativeFrom_def normalizedWeights_def
      totalWeight_sumOfWeights take_map foldl_map)

lemma cumulativeFrom_Cons:
  "cumulativeFrom t c (v # vs) = cumulativeFrom t (js_add c (js_div (weight v) t)) vs"
  by (simp add: cumulativeFrom_def)

lemma cumulativeFrom_Nil: "cumulativeFrom t c [] = c"
  by (simp add: cumulativeFrom_def)

lemma loop_first:
  "i < length vs \<Longrightarrow> js_lt b (cumulativeFrom t c (take (Suc i) vs)) \<Longrightarrow>
   (\<forall>j<i. \<not> js_lt b (cumulativeFrom t c (take (Suc j) vs))) \<Longrightarrow>
   selectVariant_loop b t c vs = Some (variant_id (vs ! i))"
proof (induction vs arbitrary: c i)
  case Nil
  then show ?case by simp
next
  case (Cons v vs)
  show ?case
  proof (cases i)
    case 0
    with Cons.prems show ?thesis
      by (simp add: cumulativeFrom_Cons cumulativeFrom_Nil)
  next
    case (Suc k)
    from Cons.prems(3) Suc have first: "\<not> js_lt b (js_add c (js_div (weight v) t))"
      by (auto simp: cumulativeFrom_Cons cumulativeFrom_Nil dest: spec [of _ 0])
    have rest: "\<forall>j<k. \<not> js_lt b (cumulativeFrom t (js_add c (js_div (weight v) t)) (take (Suc j) vs))"
    proof (intro allI impI)
      fix j assume "j < k"
      then have "Suc j < i" using Suc by simp
      with Cons.prems(3) show "\<not> js_lt b (cumulativeFrom t (js_add c (js_div (weight v) t)) (take (Suc j) vs))"
        by (auto simp: cumulativeFrom_Cons dest: spec [of _ "Suc j"])
    qed
    from Cons.prems(1,2) Suc
    have "selectVariant_loop b t (js_add c (js_div (weight v) t)) vs = Some (variant_id (vs ! k))"
      by (intro Cons.IH rest) (simp_all add: cumulativeFrom_Cons)
    with first Suc show ?thesis by simp
  qed
qed

lemma loop_none:
  "(\<forall>j<length vs. \<not> js_lt b (cumulativeFrom t c (take (Suc j) vs))) \<Longrightarrow>
   selectVariant_loop b t c vs = None"
proof (induction vs arbitrary: c)
  case Nil
  then show ?case by simp
next
  case (Cons v vs)
  from Cons.prems have first: "\<not> js_lt b (js_add c (js_div (weight v) t))"
    by (auto simp: cumulativeFrom_Cons cumulativeFrom_Nil dest: spec [of _ 0])
  have "\<forall>j<length vs. \<not> js_lt b (cumulativeFrom t (js_add c (js_div (weight v) t)) (take (Suc j) vs))"
  proof (intro allI impI)
    fix j assume "j < length vs"
    with Cons.prems show "\<not> js_lt b (cumulativeFrom t (js_add c (js_div (weight v) t)) (take (Suc j) vs))"
      by (auto simp: cumulativeFrom_Cons dest: spec [of _ "Suc j"])
  qed
  from Cons.IH [OF this] first show ?case by simp
qed

text \<open>
  Claim C1. For a non-empty list, \<open>selectVariant\<close> returns the id of the first variant, in
  list order, whose cumulative normalized weight strictly exceeds the bucket
  (\<^verbatim>\<open>bucket < cumulative\<close>); when no variant's cumulative weight exceeds the bucket it
  returns the id of the last variant. The cumulative normalized weight is the
  specification's \<open>cumulativeWeight\<close>: the running sum of the weights divided by the sum of
  all weights. The statement holds for every bucket, in particular for every bucket in
  [0,1).
\<close>

theorem selectVariant_first_exceeding:
  assumes "variants \<noteq> []"
  shows "(\<forall>i<length variants.
            js_lt bucket (cumulativeWeight variants i) \<and>
            (\<forall>j<i. \<not> js_lt bucket (cumulativeWeight variants j)) \<longrightarrow>
            selectVariant bucket variants = Inr (variant_id (variants ! i))) \<and>
         ((\<forall>j<length variants. \<not> js_lt bucket (cumulativeWeight variants j)) \<longrightarrow>
            selectVariant bucket variants = Inr (variant_id (last variants)))"
proof (intro conjI allI impI)
  fix i
  assume "i < length variants"
    and "js_lt bucket (cumulativeWeight variants i) \<and>
         (\<forall>j<i. \<not> js_lt bucket (cumulativeWeight variants j))"
  then have "selectVariant_loop bucket (totalWeight variants) (Fin 0) variants
      = Some (variant_id (variants ! i))"
    by (intro loop_first) (simp_all add: cumulativeWeight_loop)
  with assms show "selectVariant bucket variants = Inr (variant_id (variants ! i))"
    by (simp add: selectVariant_def)
next
  assume "\<forall>j<length variants. \<not> js_lt bucket (cumulativeWeight variants j)"
  then have "selectVariant_loop bucket (totalWeight variants) (Fin 0) variants = None"
    by (intro loop_none) (simp add: cumulativeWeight_loop)
  with assms show "selectVariant bucket variants = Inr (variant_id (last variants))"
    by (simp add: selectVariant_def last_conv_nth)
qed

subsection \<open>Evaluating the selector on concrete numbers\<close>

lemma round_double_zero [simp]: "round_double 0 = Fin 0"
  by (simp add: round_double_def)

lemma round_double_one [simp]: "round_double 1 = Fin 1"
  using round_double_of_int [of 1] by simp

lemma round_double_numeral [simp]:
  "(numeral k :: int) < 2 ^ 53 \<Longrightarrow> round_double (numeral k) = Fin (numeral k)"
  using round_double_of_int [of "numeral k"] by simp

lemma round_double_half [simp]: "round_double (1 / 2) = Fin (1 / 2)"
  using round_double_pow2 [of "- 1"] by (simp add: pow2_def)

lemma js_add_NaN_right [simp]: "js_add x NaN = NaN"
  by (cases x) simp_all

lemma js_lt_NaN_right [simp]: "js_lt x NaN = False"
  by (cases x) simp_all

theorem selectVariant_first_exceeding_witness:
  "[\<lparr>variant_id = ''a'', weight = Fin 1\<rparr>, \<lparr>variant_id = ''b'', weight = Fin 1\<rparr>] \<noteq> [] \<and>
   js_lt (Fin (1 / 4))
       (cumulativeWeight [\<lparr>variant_id = ''a'', weight = Fin 1\<rparr>, \<lparr>variant_id = ''b'', weight = Fin 1\<rparr>] 0) \<and>
   selectVariant (Fin (1 / 4))
       [\<lparr>variant_id = ''a'', weight = Fin 1\<rparr>, \<lparr>variant_id = ''b'', weight = Fin 1\<rparr>] = Inr ''a'' \<and>
   \<not> js_lt (Fin (1 / 2))
       (cumulativeWeight [\<lparr>variant_id = ''a'', weight = Fin 1\<rparr>, \<lparr>variant_id = ''b'', weight = Fin 1\<rparr>] 0) \<and>
   js_lt (Fin (1 / 2))
       (cumulativeWeight [\<lparr>variant_id = ''a'', weight = Fin 1\<rparr>, \<lparr>variant_id = ''b'', weight = Fin 1\<rparr>] (Suc 0)) \<and>
   selectVariant (Fin (1 / 2))
       [\<lparr>variant_id = ''a'', weight = Fin 1\<rparr>, \<lparr>variant_id = ''b'', weight = Fin 1\<rparr>] = Inr ''b'' \<and>
   \<not> js_lt (Fin 0) (cumulativeWeight [\<lparr>variant_id = ''z'', weight = Fin 0\<rparr>] 0) \<and>
   selectVariant (Fin 0) [\<lparr>variant_id = ''z'', weight = Fin 0\<rparr>] = Inr ''z''"
proof -
  let ?ab = "[\<lparr>variant_id = ''a'', weight = Fin 1\<rparr>, \<lparr>variant_id = ''b'', weight = Fin 1\<rparr>]"
  let ?z = "[\<lparr>variant_id = ''z'', weight = Fin 0\<rparr>]"
  have c0: "cumulativeWeight ?ab 0 = Fin (1 / 2)"
    by (simp add: cumulativeWeight_def normalizedWeights_def sumOfWeights_def)
  have c1: "cumulativeWeight ?ab (Suc 0) = Fin 1"
    by (simp add: cumulativeWeight_def normalizedWeights_def sumOfWeights_def)
  have z0: "cumulativeWeight ?z 0 = NaN"
    by (simp add: cumulativeWeight_def normalizedWeights_def sumOfWeights_def)
  have ne: "?ab \<noteq> []" "?z \<noteq> []" by simp_all
  have "selectVariant (Fin (1 / 4)) ?ab = Inr (variant_id (?ab ! 0))"
    by (rule selectVariant_first_exceeding [OF ne(1), THEN conjunct1, rule_format, of 0])
      (simp_all add: c0)
  moreover have "selectVariant (Fin (1 / 2)) ?ab = Inr (variant_id (?ab ! Suc 0))"
    by (rule selectVariant_first_exceeding [OF ne(1), THEN conjunct1, rule_format, of "Suc 0"])
      (simp_all add: c0 c1)
  moreover have "selectVariant (Fin 0) ?z = Inr (variant_id (last ?z))"
    by (rule selectVariant_first_exceeding [OF ne(2), THEN conjunct2, rule_format])
      (simp add: z0)
  ultimately show ?thesis
    by (simp add: c0 c1 z0)
qed


section \<open>Properties of the selector\<close>

text \<open>A bucket is a number in the half-open interval [0,1).\<close>

fun is_bucket :: "js_number \<Rightarrow> bool" where
  "is_bucket (Fin q) = (0 \<le> q \<and> q < 1)"
| "is_bucket x = False"

text \<open>
  The cumulative-weight interval of the variant at index \<open>i\<close> runs from \<open>lowerBound\<close>, the
  cumulative weight of the variant before it (\<open>0\<close> for the first variant), to its own
  cumulative weight.
\<close>

definition lowerBound :: "('i, 'm) variant_scheme list \<Rightarrow> nat \<Rightarrow> js_number" where
  "lowerBound variants i = (if i = 0 then Fin 0 else cumulativeWeight variants (i - 1))"

text \<open>The list with every weight multiplied by \<open>c\<close>, the product being a JavaScript number.\<close>

definition scaleWeights ::
  "js_number \<Rightarrow> ('i, 'm) variant_scheme list \<Rightarrow> ('i, 'm) variant_scheme list" where
  "scaleWeights c variants = map (\<lambda>v. v\<lparr>weight := js_mul c (weight v)\<rparr>) variants"

lemma totalWeight_all_zero:
  "\<forall>v\<in>set vs. weight v = Fin 0 \<Longrightarrow> foldl (\<lambda>acc v. js_add acc (weight v)) (Fin 0) vs = Fin 0"
  by (induction vs) simp_all

lemma loop_all_NaN:
  "\<forall>v\<in>set vs. js_div (weight v) t = NaN \<Longrightarrow> selectVariant_loop b t c vs = None"
  by (induction vs arbitrary: c) simp_all

text \<open>
  Claim C9. When every weight of a non-empty list is zero, \<open>totalWeight\<close> is \<open>0\<close>, every
  quotient \<^verbatim>\<open>weight / totalWeight\<close> is \<^verbatim>\<open>0 / 0 = NaN\<close>, no comparison with the bucket
  succeeds, and \<open>selectVariant\<close> returns, without an error, the id of the last variant,
  for every bucket. A single variant of weight \<open>0\<close> is therefore returned for every
  bucket.
\<close>

theorem selectVariant_all_zero_weights:
  assumes "variants \<noteq> []" and "\<forall>v\<in>set variants. weight v = Fin 0"
  shows "selectVariant bucket variants = Inr (variant_id (last variants))"
proof -
  have t: "totalWeight variants = Fin 0"
    using assms(2) by (simp add: totalWeight_def totalWeight_all_zero)
  have "\<forall>v\<in>set variants. js_div (weight v) (totalWeight variants) = NaN"
    using assms(2) by (simp add: t)
  then have "selectVariant_loop bucket (totalWeight variants) (Fin 0) variants = None"
    by (rule loop_all_NaN)
  with assms(1) show ?thesis
    by (simp add: selectVariant_def last_conv_nth)
qed

theorem selectVariant_all_zero_weights_witness:
  "selectVariant (Fin (1 / 2)) [\<lparr>variant_id = ''only'', weight = Fin 0\<rparr>] = Inr ''only'' \<and>
   selectVariant NegInf [\<lparr>variant_id = ''only'', weight = Fin 0\<rparr>] = Inr ''only'' \<and>
   selectVariant (Fin 0)
     [\<lparr>variant_id = ''a'', weight = Fin 0\<rparr>, \<lparr>variant_id = ''b'', weight = Fin 0\<rparr>] = Inr ''b''"
  using selectVariant_all_zero_weights [of "[\<lparr>variant_id = ''only'', weight = Fin 0\<rparr>]" "Fin (1 / 2)"]
    selectVariant_all_zero_weights [of "[\<lparr>variant_id = ''only'', weight = Fin 0\<rparr>]" NegInf]
    selectVariant_all_zero_weights
      [of "[\<lparr>variant_id = ''a'', weight = Fin 0\<rparr>, \<lparr>variant_id = ''b'', weight = Fin 0\<rparr>]" "Fin 0"]
  by simp

lemma js_le_not_lt: "js_le x y \<Longrightarrow> \<not> js_lt y x"
  by (cases x; cases y) simp_all

lemma not_lt_js_le: "\<not> js_lt (Fin q) x \<Longrightarrow> x \<noteq> NaN \<Longrightarrow> js_le x (Fin q)"
  by (cases x) simp_all

lemma js_add_NaN_left [simp]: "js_add NaN y = NaN"
  by simp

lemma cumulativeWeight_Suc:
  "Suc k < length vs \<Longrightarrow>
   cumulativeWeight vs (Suc k) =
     js_add (cumulativeWeight vs k) (js_div (weight (vs ! Suc k)) (totalWeight vs))"
  by (simp add: cumulativeWeight_loop cumulativeFrom_def take_Suc_conv_app_nth [of "Suc k"])

lemma loop_cases:
  obtains (found) i where "i < length vs"
      "js_lt b (cumulativeFrom t c (take (Suc i) vs))"
      "\<forall>j<i. \<not> js_lt b (cumulativeFrom t c (take (Suc j) vs))"
      "selectVariant_loop b t c vs = Some (variant_id (vs ! i))"
  | (none) "\<forall>j<length vs. \<not> js_lt b (cumulativeFrom t c (take (Suc j) vs))"
      "selectVariant_loop b t c vs = None"
proof (cases "\<exists>j<length vs. js_lt b (cumulativeFrom t c (take (Suc j) vs))")
  case True
  define P where "P j \<longleftrightarrow> j < length vs \<and> js_lt b (cumulativeFrom t c (take (Suc j) vs))" for j
  from True have ex: "\<exists>j. P j" by (auto simp: P_def)
  define i where "i = (LEAST j. P j)"
  have Pi: "P i" unfolding i_def using ex by (auto intro: LeastI_ex)
  have least: "\<forall>j<i. \<not> P j" unfolding i_def by (auto dest: not_less_Least)
  have i: "i < length vs" "js_lt b (cumulativeFrom t c (take (Suc i) vs))"
    using Pi by (auto simp: P_def)
  have before: "\<forall>j<i. \<not> js_lt b (cumulativeFrom t c (take (Suc j) vs))"
    using least i(1) by (auto simp: P_def)
  from i before loop_first [OF i before] show ?thesis by (rule found)
next
  case False
  then have all: "\<forall>j<length vs. \<not> js_lt b (cumulativeFrom t c (take (Suc j) vs))" by auto
  from all loop_none [OF all] show ?thesis by (rule none)
qed

text \<open>
  Claim C3, as amended. For a non-empty list: (1) a variant whose interval is not empty is
  selected at the interval's lower bound, which is inclusive: if the lower bound lies in
  [0,1), is strictly below the variant's cumulative weight, and no earlier cumulative
  weight exceeds it, then \<open>selectVariant\<close> at that bucket returns the variant's id;
  (2) for every bucket in [0,1) the selected variant's interval contains the bucket (lower
  bound inclusive, upper bound exclusive), or the selected variant is the last one and no
  cumulative weight exceeds the bucket (the fallback).
\<close>

theorem selectVariant_coverage:
  assumes "variants \<noteq> []"
  shows "(\<forall>i<length variants.
            is_bucket (lowerBound variants i) \<and>
            js_lt (lowerBound variants i) (cumulativeWeight variants i) \<and>
            (\<forall>j<i. js_le (cumulativeWeight variants j) (lowerBound variants i)) \<longrightarrow>
            selectVariant (lowerBound variants i) variants = Inr (variant_id (variants ! i))) \<and>
         (\<forall>bucket. is_bucket bucket \<longrightarrow>
            (\<exists>i<length variants.
               selectVariant bucket variants = Inr (variant_id (variants ! i)) \<and>
               (js_le (lowerBound variants i) bucket \<and>
                  js_lt bucket (cumulativeWeight variants i) \<or>
                i = length variants - 1 \<and>
                  (\<forall>j<length variants. \<not> js_lt bucket (cumulativeWeight variants j)))))"
proof (intro conjI allI impI)
  fix i
  assume i: "i < length variants"
    and h: "is_bucket (lowerBound variants i) \<and>
            js_lt (lowerBound variants i) (cumulativeWeight variants i) \<and>
            (\<forall>j<i. js_le (cumulativeWeight variants j) (lowerBound variants i))"
  from h have "\<forall>j<i. \<not> js_lt (lowerBound variants i) (cumulativeWeight variants j)"
    by (auto dest: js_le_not_lt)
  with i h have "selectVariant_loop (lowerBound variants i) (totalWeight variants) (Fin 0) variants
      = Some (variant_id (variants ! i))"
    by (intro loop_first) (simp_all add: cumulativeWeight_loop)
  with assms show "selectVariant (lowerBound variants i) variants = Inr (variant_id (variants ! i))"
    by (simp add: selectVariant_def)
next
  fix bucket
  assume "is_bucket bucket"
  then obtain q where b: "bucket = Fin q" and q: "0 \<le> q" "q < 1"
    by (cases bucket) auto
  let ?n = "length variants"
  from assms have n: "0 < ?n" by simp
  show "\<exists>i<?n. selectVariant bucket variants = Inr (variant_id (variants ! i)) \<and>
          (js_le (lowerBound variants i) bucket \<and> js_lt bucket (cumulativeWeight variants i) \<or>
           i = ?n - 1 \<and> (\<forall>j<?n. \<not> js_lt bucket (cumulativeWeight variants j)))"
  proof (cases rule: loop_cases [of variants bucket "totalWeight variants" "Fin 0"])
    case (found i)
    from found(2) have lt: "js_lt bucket (cumulativeWeight variants i)"
      by (simp add: cumulativeWeight_loop)
    have sel: "selectVariant bucket variants = Inr (variant_id (variants ! i))"
      using assms found(4) by (simp add: selectVariant_def)
    have "js_le (lowerBound variants i) bucket"
    proof (cases i)
      case 0
      then show ?thesis using q by (simp add: lowerBound_def b)
    next
      case (Suc k)
      from found(3) Suc have nlt: "\<not> js_lt (Fin q) (cumulativeWeight variants k)"
        by (simp add: cumulativeWeight_loop b)
      have "cumulativeWeight variants k \<noteq> NaN"
      proof
        assume "cumulativeWeight variants k = NaN"
        then have "cumulativeWeight variants i = NaN"
          using found(1) Suc by (simp add: cumulativeWeight_Suc)
        with lt show False by simp
      qed
      with nlt show ?thesis
        by (simp add: lowerBound_def Suc b not_lt_js_le)
    qed
    with found(1) sel lt show ?thesis by blast
  next
    case none
    have sel: "selectVariant bucket variants = Inr (variant_id (variants ! (?n - 1)))"
      using assms none(2) by (simp add: selectVariant_def)
    from none(1) have "\<forall>j<?n. \<not> js_lt bucket (cumulativeWeight variants j)"
      by (simp add: cumulativeWeight_loop)
    with sel n show ?thesis
      by (intro exI [of _ "?n - 1"]) simp
  qed
qed

text \<open>
  Claim C3 as stated fails: not every variant is selected for some bucket. A variant of
  weight \<open>0\<close> before the last has an empty interval; in the list \<open>a\<close> (weight 0), \<open>b\<close>
  (weight 1) no bucket in [0,1) selects \<open>a\<close>.
\<close>

theorem selectVariant_coverage_counterexample:
  "\<not> (\<exists>bucket. is_bucket bucket \<and>
        selectVariant bucket
          [\<lparr>variant_id = ''a'', weight = Fin 0\<rparr>, \<lparr>variant_id = ''b'', weight = Fin 1\<rparr>] = Inr ''a'')"
proof
  assume "\<exists>bucket. is_bucket bucket \<and>
        selectVariant bucket
          [\<lparr>variant_id = ''a'', weight = Fin 0\<rparr>, \<lparr>variant_id = ''b'', weight = Fin 1\<rparr>] = Inr ''a''"
  then obtain bucket where b: "is_bucket bucket"
    and s: "selectVariant bucket
          [\<lparr>variant_id = ''a'', weight = Fin 0\<rparr>, \<lparr>variant_id = ''b'', weight = Fin 1\<rparr>] = Inr ''a''"
    by blast
  from b obtain q where q: "bucket = Fin q" "0 \<le> q" "q < 1"
    by (cases bucket) auto
  have "selectVariant (Fin q)
          [\<lparr>variant_id = ''a'', weight = Fin 0\<rparr>, \<lparr>variant_id = ''b'', weight = Fin 1\<rparr>] = Inr ''b''"
    using q(2,3) by (simp add: selectVariant_def totalWeight_def)
  with s q(1) show False by simp
qed

theorem selectVariant_coverage_witness:
  "[\<lparr>variant_id = ''a'', weight = Fin 50\<rparr>, \<lparr>variant_id = ''b'', weight = Fin 50\<rparr>] \<noteq> [] \<and>
   lowerBound [\<lparr>variant_id = ''a'', weight = Fin 50\<rparr>, \<lparr>variant_id = ''b'', weight = Fin 50\<rparr>] (Suc 0)
     = Fin (1 / 2) \<and>
   is_bucket (Fin (1 / 2)) \<and>
   js_lt (Fin (1 / 2))
     (cumulativeWeight [\<lparr>variant_id = ''a'', weight = Fin 50\<rparr>, \<lparr>variant_id = ''b'', weight = Fin 50\<rparr>] (Suc 0)) \<and>
   js_le (cumulativeWeight [\<lparr>variant_id = ''a'', weight = Fin 50\<rparr>, \<lparr>variant_id = ''b'', weight = Fin 50\<rparr>] 0)
     (Fin (1 / 2)) \<and>
   selectVariant (Fin (1 / 2))
     [\<lparr>variant_id = ''a'', weight = Fin 50\<rparr>, \<lparr>variant_id = ''b'', weight = Fin 50\<rparr>] = Inr ''b'' \<and>
   is_bucket (Fin (1 / 4)) \<and>
   (\<exists>i<length [\<lparr>variant_id = ''a'', weight = Fin 50\<rparr>, \<lparr>variant_id = ''b'', weight = Fin 50\<rparr>].
      selectVariant (Fin (1 / 4))
        [\<lparr>variant_id = ''a'', weight = Fin 50\<rparr>, \<lparr>variant_id = ''b'', weight = Fin 50\<rparr>]
        = Inr (variant_id ([\<lparr>variant_id = ''a'', weight = Fin 50\<rparr>, \<lparr>variant_id = ''b'', weight = Fin 50\<rparr>] ! i)) \<and>
      (js_le (lowerBound [\<lparr>variant_id = ''a'', weight = Fin 50\<rparr>, \<lparr>variant_id = ''b'', weight = Fin 50\<rparr>] i)
          (Fin (1 / 4)) \<and>
        js_lt (Fin (1 / 4))
          (cumulativeWeight [\<lparr>variant_id = ''a'', weight = Fin 50\<rparr>, \<lparr>variant_id = ''b'', weight = Fin 50\<rparr>] i) \<or>
       i = length [\<lparr>variant_id = ''a'', weight = Fin 50\<rparr>, \<lparr>variant_id = ''b'', weight = Fin 50\<rparr>] - 1 \<and>
        (\<forall>j<length [\<lparr>variant_id = ''a'', weight = Fin 50\<rparr>, \<lparr>variant_id = ''b'', weight = Fin 50\<rparr>].
           \<not> js_lt (Fin (1 / 4))
             (cumulativeWeight [\<lparr>variant_id = ''a'', weight = Fin 50\<rparr>, \<lparr>variant_id = ''b'', weight = Fin 50\<rparr>] j))))"
proof -
  let ?ab = "[\<lparr>variant_id = ''a'', weight = Fin 50\<rparr>, \<lparr>variant_id = ''b'', weight = Fin 50\<rparr>]"
  have c0: "cumulativeWeight ?ab 0 = Fin (1 / 2)"
    by (simp add: cumulativeWeight_def normalizedWeights_def sumOfWeights_def)
  have c1: "cumulativeWeight ?ab (Suc 0) = Fin 1"
    by (simp add: cumulativeWeight_def normalizedWeights_def sumOfWeights_def)
  have l1: "lowerBound ?ab (Suc 0) = Fin (1 / 2)"
    by (simp add: lowerBound_def c0)
  have ne: "?ab \<noteq> []" by simp
  have b: "is_bucket (Fin (1 / 2))" "is_bucket (Fin (1 / 4))" by simp_all
  have lt: "js_lt (Fin (1 / 2)) (cumulativeWeight ?ab (Suc 0))" by (simp add: c1)
  have le: "js_le (cumulativeWeight ?ab 0) (Fin (1 / 2))" by (simp add: c0)
  have "selectVariant (lowerBound ?ab (Suc 0)) ?ab = Inr (variant_id (?ab ! Suc 0))"
    by (rule selectVariant_coverage [OF ne, THEN conjunct1, rule_format, of "Suc 0"])
      (simp_all add: l1 c0 c1)
  then have sel: "selectVariant (Fin (1 / 2)) ?ab = Inr ''b''"
    by (simp add: l1)
  note ex = selectVariant_coverage [OF ne, THEN conjunct2, rule_format, OF b(2)]
  from ne l1 b(1) lt le sel b(2) ex show ?thesis
    by (intro conjI)
qed

text \<open>
  Claim C4 as stated fails, because sums of weights are rounded and can overflow. For the
  weights \<open>1, 1\<close> and bucket \<open>0\<close> the selector returns \<open>a\<close>. Scaled by \<open>c = 2^1023\<close> the
  weights are \<open>2^1023, 2^1023\<close> (both binary64 values), their sum overflows to
  \<^verbatim>\<open>Infinity\<close>, every quotient is \<open>0\<close>, and the selector falls back to \<open>b\<close>.
\<close>

theorem selectVariant_scaling_counterexample:
  "is_bucket (Fin 0) \<and> (0 :: rat) < 2 ^ 1023 \<and>
   selectVariant (Fin 0)
     [\<lparr>variant_id = ''a'', weight = Fin 1\<rparr>, \<lparr>variant_id = ''b'', weight = Fin 1\<rparr>] = Inr ''a'' \<and>
   scaleWeights (Fin (2 ^ 1023))
     [\<lparr>variant_id = ''a'', weight = Fin 1\<rparr>, \<lparr>variant_id = ''b'', weight = Fin 1\<rparr>]
     = [\<lparr>variant_id = ''a'', weight = Fin (2 ^ 1023)\<rparr>, \<lparr>variant_id = ''b'', weight = Fin (2 ^ 1023)\<rparr>] \<and>
   selectVariant (Fin 0)
     (scaleWeights (Fin (2 ^ 1023))
       [\<lparr>variant_id = ''a'', weight = Fin 1\<rparr>, \<lparr>variant_id = ''b'', weight = Fin 1\<rparr>]) = Inr ''b''"
proof -
  have p: "(2 :: rat) ^ 1023 = pow2 1023" by (simp add: pow2_def)
  have r: "round_double (pow2 1023) = Fin (pow2 1023)"
    by (rule round_double_pow2) simp_all
  have "pow2 1 = 2" by (simp add: pow2_def)
  then have "2 * pow2 1023 = pow2 1024"
    using pow2_add [of 1 1023] by simp
  then have o: "round_double (2 * pow2 1023) = PosInf"
    by (simp add: round_double_overflow)
  have sc: "scaleWeights (Fin (pow2 1023))
     [\<lparr>variant_id = ''a'', weight = Fin 1\<rparr>, \<lparr>variant_id = ''b'', weight = Fin 1\<rparr>]
     = [\<lparr>variant_id = ''a'', weight = Fin (pow2 1023)\<rparr>, \<lparr>variant_id = ''b'', weight = Fin (pow2 1023)\<rparr>]"
    by (simp add: scaleWeights_def r)
  have t: "totalWeight
      [\<lparr>variant_id = ''a'', weight = Fin (pow2 1023)\<rparr>, \<lparr>variant_id = ''b'', weight = Fin (pow2 1023)\<rparr>]
      = PosInf"
    by (simp add: totalWeight_def r o)
  have a: "selectVariant (Fin 0)
     [\<lparr>variant_id = ''a'', weight = Fin 1\<rparr>, \<lparr>variant_id = ''b'', weight = Fin 1\<rparr>] = Inr ''a''"
    by (simp add: selectVariant_def totalWeight_def)
  have b: "selectVariant (Fin 0)
      [\<lparr>variant_id = ''a'', weight = Fin (pow2 1023)\<rparr>, \<lparr>variant_id = ''b'', weight = Fin (pow2 1023)\<rparr>]
      = Inr ''b''"
    by (simp add: selectVariant_def t)
  have "(0 :: rat) < pow2 1023" by simp
  with a b show ?thesis
    unfolding p sc by simp
qed

lemma js_div_scaled:
  "0 < c \<Longrightarrow> js_div (Fin (c * w)) (Fin (c * t)) = js_div (Fin w) (Fin t)"
  by (simp add: zero_less_mult_iff)

lemma loop_scaled:
  assumes "0 < c"
    and "\<forall>v\<in>set vs. \<exists>w. weight v = Fin w \<and> js_mul (Fin c) (Fin w) = Fin (c * w)"
  shows "selectVariant_loop b (Fin (c * t)) cum (scaleWeights (Fin c) vs)
       = selectVariant_loop b (Fin t) cum vs"
  using assms(2)
proof (induction vs arbitrary: cum)
  case Nil
  then show ?case by (simp add: scaleWeights_def)
next
  case (Cons v vs)
  from Cons.prems obtain w where w: "weight v = Fin w" "js_mul (Fin c) (Fin w) = Fin (c * w)"
    by auto
  have d: "js_div (js_mul (Fin c) (weight v)) (Fin (c * t)) = js_div (weight v) (Fin t)"
    unfolding w using js_div_scaled [OF assms(1)] by simp
  have ih: "selectVariant_loop b (Fin (c * t)) cum' (scaleWeights (Fin c) vs)
       = selectVariant_loop b (Fin t) cum' vs" for cum'
    using Cons.IH Cons.prems by simp
  have sc: "scaleWeights (Fin c) (v # vs) = v\<lparr>weight := js_mul (Fin c) (weight v)\<rparr> # scaleWeights (Fin c) vs"
    by (simp add: scaleWeights_def)
  show ?case
    unfolding sc by (simp add: d ih Let_def)
qed

text \<open>
  The failure does not need large weights. With the weights \<open>1, 5\<close> and the bucket
  \<^verbatim>\<open>0.16666666666666666\<close> (the binary64 value of \<^verbatim>\<open>1 / 6\<close>) the selector returns \<open>b\<close>:
  the first cumulative weight equals the bucket. Multiplied by \<^verbatim>\<open>0.1\<close> the weights are
  \<^verbatim>\<open>0.1, 0.5\<close>, their total is \<^verbatim>\<open>0.6\<close>, the first cumulative weight is
  \<^verbatim>\<open>0.1 / 0.6 = 0.16666666666666669\<close>, above the bucket, and the selector returns \<open>a\<close>.
\<close>

lemma rounding_example_scaled:
  "js_mul (Fin (3602879701896397 / 36028797018963968)) (Fin 1)
     = Fin (3602879701896397 / 36028797018963968)"
  "js_mul (Fin (3602879701896397 / 36028797018963968)) (Fin 5) = Fin (1 / 2)"
  "js_add (Fin 0) (Fin (3602879701896397 / 36028797018963968))
     = Fin (3602879701896397 / 36028797018963968)"
  "js_add (Fin (3602879701896397 / 36028797018963968)) (Fin (1 / 2))
     = Fin (5404319552844595 / 9007199254740992)"
  "js_div (Fin (3602879701896397 / 36028797018963968)) (Fin (5404319552844595 / 9007199254740992))
     = Fin (3002399751580331 / 18014398509481984)"
  "js_add (Fin 0) (Fin (3002399751580331 / 18014398509481984))
     = Fin (3002399751580331 / 18014398509481984)"
proof -
  show "js_mul (Fin (3602879701896397 / 36028797018963968)) (Fin 1)
     = Fin (3602879701896397 / 36028797018963968)"
    by (simp, subst round_double_at [of "- 4"])
      (simp_all add: pow2_def round_half_even_def Let_def floor_numeral_div)
  show "js_mul (Fin (3602879701896397 / 36028797018963968)) (Fin 5) = Fin (1 / 2)"
    by (simp, subst round_double_at [of "- 1"])
      (simp_all add: pow2_def round_half_even_def Let_def floor_numeral_div)
  show "js_add (Fin 0) (Fin (3602879701896397 / 36028797018963968))
     = Fin (3602879701896397 / 36028797018963968)"
    by (simp, subst round_double_at [of "- 4"])
      (simp_all add: pow2_def round_half_even_def Let_def floor_numeral_div)
  show "js_add (Fin (3602879701896397 / 36028797018963968)) (Fin (1 / 2))
     = Fin (5404319552844595 / 9007199254740992)"
    by (simp, subst round_double_at [of "- 1"])
      (simp_all add: pow2_def round_half_even_def Let_def floor_numeral_div)
  show "js_div (Fin (3602879701896397 / 36028797018963968)) (Fin (5404319552844595 / 9007199254740992))
     = Fin (3002399751580331 / 18014398509481984)"
    by (simp, subst round_double_at [of "- 3"])
      (simp_all add: pow2_def round_half_even_def Let_def floor_numeral_div)
  show "js_add (Fin 0) (Fin (3002399751580331 / 18014398509481984))
     = Fin (3002399751580331 / 18014398509481984)"
    by (simp, subst round_double_at [of "- 3"])
      (simp_all add: pow2_def round_half_even_def Let_def floor_numeral_div)
qed

lemma rounding_example_original:
  "js_div (Fin 1) (Fin 6) = Fin (6004799503160661 / 36028797018963968)"
  "js_add (Fin 0) (Fin (6004799503160661 / 36028797018963968))
     = Fin (6004799503160661 / 36028797018963968)"
  "js_div (Fin 5) (Fin 6) = Fin (7505999378950827 / 9007199254740992)"
  "js_add (Fin (6004799503160661 / 36028797018963968)) (Fin (7505999378950827 / 9007199254740992))
     = Fin 1"
proof -
  show "js_div (Fin 1) (Fin 6) = Fin (6004799503160661 / 36028797018963968)"
    by (simp, subst round_double_at [of "- 3"])
      (simp_all add: pow2_def round_half_even_def Let_def floor_numeral_div)
  show "js_add (Fin 0) (Fin (6004799503160661 / 36028797018963968))
     = Fin (6004799503160661 / 36028797018963968)"
    by (simp, subst round_double_at [of "- 3"])
      (simp_all add: pow2_def round_half_even_def Let_def floor_numeral_div)
  show "js_div (Fin 5) (Fin 6) = Fin (7505999378950827 / 9007199254740992)"
    by (simp, subst round_double_at [of "- 1"])
      (simp_all add: pow2_def round_half_even_def Let_def floor_numeral_div)
  show "js_add (Fin (6004799503160661 / 36028797018963968)) (Fin (7505999378950827 / 9007199254740992))
     = Fin 1"
    by (simp, subst round_double_at [of 0])
      (simp_all add: pow2_def round_half_even_def Let_def floor_numeral_div)
qed

lemma selectVariant_scaling_rounding_example:
  "selectVariant (Fin (6004799503160661 / 36028797018963968))
     [\<lparr>variant_id = ''a'', weight = Fin 1\<rparr>, \<lparr>variant_id = ''b'', weight = Fin 5\<rparr>] = Inr ''b'' \<and>
   scaleWeights (Fin (3602879701896397 / 36028797018963968))
     [\<lparr>variant_id = ''a'', weight = Fin 1\<rparr>, \<lparr>variant_id = ''b'', weight = Fin 5\<rparr>]
     = [\<lparr>variant_id = ''a'', weight = Fin (3602879701896397 / 36028797018963968)\<rparr>,
        \<lparr>variant_id = ''b'', weight = Fin (1 / 2)\<rparr>] \<and>
   selectVariant (Fin (6004799503160661 / 36028797018963968))
     (scaleWeights (Fin (3602879701896397 / 36028797018963968))
       [\<lparr>variant_id = ''a'', weight = Fin 1\<rparr>, \<lparr>variant_id = ''b'', weight = Fin 5\<rparr>]) = Inr ''a''"
proof -
  have sc: "scaleWeights (Fin (3602879701896397 / 36028797018963968))
     [\<lparr>variant_id = ''a'', weight = Fin 1\<rparr>, \<lparr>variant_id = ''b'', weight = Fin 5\<rparr>]
     = [\<lparr>variant_id = ''a'', weight = Fin (3602879701896397 / 36028797018963968)\<rparr>,
        \<lparr>variant_id = ''b'', weight = Fin (1 / 2)\<rparr>]"
    by (simp add: scaleWeights_def rounding_example_scaled del: js_mul.simps)
  have t: "totalWeight
      [\<lparr>variant_id = ''a'', weight = Fin (3602879701896397 / 36028797018963968)\<rparr>,
       \<lparr>variant_id = ''b'', weight = Fin (1 / 2)\<rparr>] = Fin (5404319552844595 / 9007199254740992)"
    by (simp add: totalWeight_def rounding_example_scaled del: js_add.simps)
  have t6: "totalWeight [\<lparr>variant_id = ''a'', weight = Fin 1\<rparr>, \<lparr>variant_id = ''b'', weight = Fin 5\<rparr>]
      = Fin 6"
    by (simp add: totalWeight_def)
  have a: "selectVariant (Fin (6004799503160661 / 36028797018963968))
     [\<lparr>variant_id = ''a'', weight = Fin 1\<rparr>, \<lparr>variant_id = ''b'', weight = Fin 5\<rparr>] = Inr ''b''"
    by (simp add: selectVariant_def t6 rounding_example_original del: js_add.simps js_div.simps)
  have b: "selectVariant (Fin (6004799503160661 / 36028797018963968))
      [\<lparr>variant_id = ''a'', weight = Fin (3602879701896397 / 36028797018963968)\<rparr>,
       \<lparr>variant_id = ''b'', weight = Fin (1 / 2)\<rparr>] = Inr ''a''"
    by (simp add: selectVariant_def t rounding_example_scaled del: js_add.simps js_div.simps)
  from a b show ?thesis
    unfolding sc by simp
qed

text \<open>
  Claim C4, as amended. Selection is invariant under scaling by a finite \<open>c > 0\<close> whenever
  the scaling is exact: every weight is finite, each product \<open>c * weight\<close> is computed
  without rounding, and the total of the scaled weights is exactly \<open>c\<close> times the total
  of the original weights. Then \<open>selectVariant\<close> returns the same result for both lists,
  for every bucket.
\<close>

theorem selectVariant_scaling_exact:
  assumes "0 < c"
    and "\<forall>v\<in>set variants. \<exists>w. weight v = Fin w \<and> js_mul (Fin c) (Fin w) = Fin (c * w)"
    and "totalWeight variants = Fin t"
    and "totalWeight (scaleWeights (Fin c) variants) = Fin (c * t)"
  shows "selectVariant bucket (scaleWeights (Fin c) variants) = selectVariant bucket variants"
proof (cases "variants = []")
  case True
  then show ?thesis by (simp add: scaleWeights_def)
next
  case False
  have len: "length (scaleWeights (Fin c) variants) = length variants"
    by (simp add: scaleWeights_def)
  have lastid: "variant_id (scaleWeights (Fin c) variants ! (length variants - Suc 0))
      = variant_id (variants ! (length variants - Suc 0))"
    using False by (simp add: scaleWeights_def)
  show ?thesis
    using False
    by (cases "selectVariant_loop bucket (Fin t) (Fin 0) variants")
      (simp_all add: selectVariant_def len lastid assms(3,4) loop_scaled [OF assms(1,2)])
qed

theorem selectVariant_scaling_exact_witness:
  "(0 :: rat) < 2 \<and>
   js_mul (Fin 2) (Fin 1) = Fin (2 * 1) \<and> js_mul (Fin 2) (Fin 3) = Fin (2 * 3) \<and>
   totalWeight [\<lparr>variant_id = ''a'', weight = Fin 1\<rparr>, \<lparr>variant_id = ''b'', weight = Fin 3\<rparr>] = Fin 4 \<and>
   totalWeight (scaleWeights (Fin 2)
      [\<lparr>variant_id = ''a'', weight = Fin 1\<rparr>, \<lparr>variant_id = ''b'', weight = Fin 3\<rparr>]) = Fin (2 * 4) \<and>
   selectVariant (Fin (1 / 2)) (scaleWeights (Fin 2)
      [\<lparr>variant_id = ''a'', weight = Fin 1\<rparr>, \<lparr>variant_id = ''b'', weight = Fin 3\<rparr>])
     = selectVariant (Fin (1 / 2))
      [\<lparr>variant_id = ''a'', weight = Fin 1\<rparr>, \<lparr>variant_id = ''b'', weight = Fin 3\<rparr>]"
proof -
  let ?vs = "[\<lparr>variant_id = ''a'', weight = Fin 1\<rparr>, \<lparr>variant_id = ''b'', weight = Fin 3\<rparr>]"
  have m: "js_mul (Fin 2) (Fin 1) = Fin (2 * 1)" "js_mul (Fin 2) (Fin 3) = Fin (2 * 3)"
    by simp_all
  have t: "totalWeight ?vs = Fin 4"
    by (simp add: totalWeight_def)
  have t': "totalWeight (scaleWeights (Fin 2) ?vs) = Fin (2 * 4)"
    by (simp add: totalWeight_def scaleWeights_def)
  have "selectVariant (Fin (1 / 2)) (scaleWeights (Fin 2) ?vs) = selectVariant (Fin (1 / 2)) ?vs"
    by (rule selectVariant_scaling_exact [OF _ _ t t']) (simp_all add: m)
  with m t t' show ?thesis by simp
qed


section \<open>JavaScript values\<close>

text \<open>
  The content the resolvers receive is loosely typed data (\<^verbatim>\<open>Record<string, unknown>\<close>,
  \<^verbatim>\<open>unknown[]\<close>): JSON-like values. An object is its list of own properties in insertion
  order; a property that is absent reads as \<^verbatim>\<open>undefined\<close>. Values are trees, without the
  identity of objects: content records that are mutated are passed and returned
  explicitly.
\<close>

datatype js_value =
    Undefined
  | Null
  | Bool bool
  | Num js_number
  | Str string
  | Arr "js_value list"
  | Obj "(string \<times> js_value) list"

type_synonym js_object = "(string \<times> js_value) list"

text \<open>
  \<^verbatim>\<open>String(x)\<close> of a number and \<^verbatim>\<open>Number(x)\<close> of a string are conversions of the language
  runtime, not of this repository. They are parameters of the model, so every statement
  below holds whatever the two conversions return.
\<close>

record runtime =
  numberToString :: "js_number \<Rightarrow> string"
  stringToNumber :: "string \<Rightarrow> js_number"

text \<open>
  \<open>isRecord\<close> is the function of line 167; \<open>isArray\<close> is \<^verbatim>\<open>Array.isArray\<close> and
  \<open>elements\<close> the elements of an array.
\<close>

fun isRecord :: "js_value \<Rightarrow> bool" where
  "isRecord (Obj fs) = True"
| "isRecord v = False"

fun isArray :: "js_value \<Rightarrow> bool" where
  "isArray (Arr xs) = True"
| "isArray v = False"

fun elements :: "js_value \<Rightarrow> js_value list" where
  "elements (Arr xs) = xs"
| "elements v = []"

text \<open>
  Reading a property. \<open>own\<close> reads a property of a record. \<open>field\<close> reads a property of
  a value that is not \<^verbatim>\<open>null\<close> or \<^verbatim>\<open>undefined\<close>; the module reads only the keys
  \<^verbatim>\<open>id\<close>, \<^verbatim>\<open>weight\<close>, \<^verbatim>\<open>blocks\<close>, \<^verbatim>\<open>document\<close>, \<^verbatim>\<open>definition\<close>, \<^verbatim>\<open>type\<close>, \<^verbatim>\<open>data\<close>,
  \<^verbatim>\<open>multivariate\<close>, \<^verbatim>\<open>variants\<close>, \<^verbatim>\<open>config\<close>, \<^verbatim>\<open>children\<close> and \<^verbatim>\<open>child\<close>, none of which
  is a built-in property of a string, number, boolean or array, so on those values the
  read gives \<^verbatim>\<open>undefined\<close>. \<open>get_prop\<close> is a read that is not guarded: on \<^verbatim>\<open>null\<close>
  and \<^verbatim>\<open>undefined\<close> the language raises a \<^verbatim>\<open>TypeError\<close>.
\<close>

definition own :: "js_object \<Rightarrow> string \<Rightarrow> js_value" where
  "own fs k = (case map_of fs k of None \<Rightarrow> Undefined | Some v \<Rightarrow> v)"

fun field :: "js_value \<Rightarrow> string \<Rightarrow> js_value" where
  "field (Obj fs) k = own fs k"
| "field v k = Undefined"

fun get_prop :: "js_value \<Rightarrow> string \<Rightarrow> js_error + js_value" where
  "get_prop Undefined k = Inl TypeError"
| "get_prop Null k = Inl TypeError"
| "get_prop v k = Inr (field v k)"

text \<open>
  Writing a record: \<open>assign\<close> is \<^verbatim>\<open>o.k = v\<close> (an existing key keeps its place, a new key
  is added last), \<open>delete_prop\<close> is \<^verbatim>\<open>delete o.k\<close>, and \<open>spread_with x k v\<close> is the
  object literal \<^verbatim>\<open>{...x, k: v}\<close>. \<open>has_key\<close> says that a record carries a key.
\<close>

fun assign :: "string \<Rightarrow> js_value \<Rightarrow> js_object \<Rightarrow> js_object" where
  "assign k v [] = [(k, v)]"
| "assign k v ((k', v') # fs) = (if k' = k then (k, v) # fs else (k', v') # assign k v fs)"

definition delete_prop :: "string \<Rightarrow> js_object \<Rightarrow> js_object" where
  "delete_prop k fs = filter (\<lambda>(k', v). k' \<noteq> k) fs"

definition has_key :: "js_object \<Rightarrow> string \<Rightarrow> bool" where
  "has_key fs k = (k \<in> set (map fst fs))"

fun spread_with :: "js_value \<Rightarrow> string \<Rightarrow> js_value \<Rightarrow> js_value" where
  "spread_with (Obj fs) k v = Obj (assign k v fs)"
| "spread_with x k v = Obj [(k, v)]"

text \<open>
  \<open>truthy\<close> is the test of \<^verbatim>\<open>if (x)\<close> and \<^verbatim>\<open>!x\<close>. \<open>strict_equals x p\<close> is \<^verbatim>\<open>x === p\<close> for a
  primitive \<open>p\<close>: a primitive is equal only to a primitive of the same type and value, and
  \<^verbatim>\<open>NaN\<close> equals nothing. Objects and arrays are compared by reference in JavaScript and
  the model's values carry no reference; every comparison the module makes has a
  primitive on one side (a literal, or the selected id, which is a string in the blog
  post and tree resolvers and of declared type \<^verbatim>\<open>string\<close> in the page resolver), so the
  second argument is a \<open>js_primitive\<close>, and \<open>value_of\<close> embeds the primitives into the
  values.
\<close>

fun truthy :: "js_value \<Rightarrow> bool" where
  "truthy Undefined = False"
| "truthy Null = False"
| "truthy (Bool b) = b"
| "truthy (Num n) = (n \<noteq> NaN \<and> n \<noteq> Fin 0)"
| "truthy (Str s) = (s \<noteq> [])"
| "truthy (Arr xs) = True"
| "truthy (Obj fs) = True"

datatype js_primitive =
    PUndefined
  | PNull
  | PBool bool
  | PNum js_number
  | PStr string

fun value_of :: "js_primitive \<Rightarrow> js_value" where
  "value_of PUndefined = Undefined"
| "value_of PNull = Null"
| "value_of (PBool b) = Bool b"
| "value_of (PNum n) = Num n"
| "value_of (PStr s) = Str s"

fun strict_equals :: "js_value \<Rightarrow> js_primitive \<Rightarrow> bool" where
  "strict_equals Undefined PUndefined = True"
| "strict_equals Null PNull = True"
| "strict_equals (Bool a) (PBool b) = (a = b)"
| "strict_equals (Num a) (PNum b) = (a \<noteq> NaN \<and> a = b)"
| "strict_equals (Str a) (PStr b) = (a = b)"
| "strict_equals x p = False"

text \<open>
  \<^verbatim>\<open>xs.map(f)\<close> with a callback that may throw stops at the first exception;
  \<^verbatim>\<open>xs.find(p)\<close> gives the first element that satisfies \<open>p\<close>, or \<^verbatim>\<open>undefined\<close>.
\<close>

fun map_result :: "('a \<Rightarrow> 'e + 'b) \<Rightarrow> 'a list \<Rightarrow> 'e + 'b list" where
  "map_result f [] = Inr []"
| "map_result f (x # xs) =
     (case f x of
        Inl e \<Rightarrow> Inl e
      | Inr y \<Rightarrow> (case map_result f xs of Inl e \<Rightarrow> Inl e | Inr ys \<Rightarrow> Inr (y # ys)))"

fun js_find :: "(js_value \<Rightarrow> bool) \<Rightarrow> js_value list \<Rightarrow> js_value" where
  "js_find p [] = Undefined"
| "js_find p (x # xs) = (if p x then x else js_find p xs)"

fun js_find_result :: "(js_value \<Rightarrow> js_error + bool) \<Rightarrow> js_value list \<Rightarrow> js_error + js_value" where
  "js_find_result p [] = Inr Undefined"
| "js_find_result p (x # xs) =
     (case p x of
        Inl e \<Rightarrow> Inl e
      | Inr b \<Rightarrow> if b then Inr x else js_find_result p xs)"

lemma map_result_cong [fundef_cong]:
  "xs = ys \<Longrightarrow> (\<And>x. x \<in> set ys \<Longrightarrow> f x = g x) \<Longrightarrow> map_result f xs = map_result g ys"
  by (induction ys arbitrary: xs) (auto split: sum.splits)

text \<open>
  \<^verbatim>\<open>String(x)\<close> and \<^verbatim>\<open>Number(x)\<close> on plain data: values as \<^verbatim>\<open>JSON.parse\<close> builds them, whose
  objects have the prototype \<^verbatim>\<open>Object.prototype\<close> and hold no function. Both conversions
  turn an object into a primitive by calling its \<^verbatim>\<open>toString\<close> and \<^verbatim>\<open>valueOf\<close> methods. The
  inherited \<^verbatim>\<open>toString\<close> gives \<^verbatim>\<open>"[object Object]"\<close> and the inherited \<^verbatim>\<open>valueOf\<close> gives the
  object itself, which is no primitive. An own property \<^verbatim>\<open>toString\<close> hides the inherited
  method and, being data, cannot be called: then neither method yields a primitive and
  the language raises a \<^verbatim>\<open>TypeError\<close>. An own property \<^verbatim>\<open>valueOf\<close> alone is skipped in favour
  of the inherited \<^verbatim>\<open>toString\<close>. An array is converted by \<^verbatim>\<open>join\<close>, which converts each
  element that is not \<^verbatim>\<open>null\<close> or \<^verbatim>\<open>undefined\<close> with \<^verbatim>\<open>String\<close>, in order, and so raises the
  first \<^verbatim>\<open>TypeError\<close> among its elements.
\<close>

fun join_comma :: "string list \<Rightarrow> string" where
  "join_comma [] = []"
| "join_comma [s] = s"
| "join_comma (s # t # ss) = s @ CHR '','' # join_comma (t # ss)"

fun js_String :: "runtime \<Rightarrow> js_value \<Rightarrow> js_error + string" where
  "js_String rt Undefined = Inr ''undefined''"
| "js_String rt Null = Inr ''null''"
| "js_String rt (Bool b) = Inr (if b then ''true'' else ''false'')"
| "js_String rt (Num n) = Inr (numberToString rt n)"
| "js_String rt (Str s) = Inr s"
| "js_String rt (Arr xs) =
     (case map_result (\<lambda>x. if x = Undefined \<or> x = Null then Inr [] else js_String rt x) xs of
        Inl e \<Rightarrow> Inl e
      | Inr ss \<Rightarrow> Inr (join_comma ss))"
| "js_String rt (Obj fs) =
     (if has_key fs ''toString'' then Inl TypeError else Inr ''[object Object]'')"

fun js_Number :: "runtime \<Rightarrow> js_value \<Rightarrow> js_error + js_number" where
  "js_Number rt Undefined = Inr NaN"
| "js_Number rt Null = Inr (Fin 0)"
| "js_Number rt (Bool b) = Inr (if b then Fin 1 else Fin 0)"
| "js_Number rt (Num n) = Inr n"
| "js_Number rt (Str s) = Inr (stringToNumber rt s)"
| "js_Number rt (Arr xs) =
     (case js_String rt (Arr xs) of
        Inl e \<Rightarrow> Inl e
      | Inr s \<Rightarrow> Inr (stringToNumber rt s))"
| "js_Number rt (Obj fs) =
     (case js_String rt (Obj fs) of
        Inl e \<Rightarrow> Inl e
      | Inr s \<Rightarrow> Inr (stringToNumber rt s))"

section \<open>The resolvers\<close>

text \<open>
  \<open>isMultivariateContent\<close> (line 39) and \<open>resolvePageVariant\<close> (line 47). The page
  resolver takes content of its declared type: a list of variants, each with an id, a
  numeric weight and its sections. It passes the variants to \<open>selectVariant\<close> as they are
  and looks the selected id up with \<^verbatim>\<open>===\<close>. The field \<^verbatim>\<open>variants\<close> of the content is named
  \<open>content_variants\<close>, the field \<^verbatim>\<open>sections\<close> of a variant \<open>variant_sections\<close>, and the
  field \<^verbatim>\<open>sections\<close> of the result \<open>resolved_sections\<close>.
\<close>

definition isMultivariateContent :: "js_object \<Rightarrow> bool" where
  "isMultivariateContent content =
     (strict_equals (own content ''multivariate'') (PBool True) \<and> isArray (own content ''variants''))"

record page_variant = "js_primitive variant" +
  variant_sections :: js_value

record multivariate_content =
  content_variants :: "page_variant list"

record resolved_page =
  resolved_sections :: js_value
  variantId :: js_primitive

definition resolvePageVariant :: "multivariate_content \<Rightarrow> js_number \<Rightarrow> js_error + resolved_page" where
  "resolvePageVariant content bucket =
     (case selectVariant bucket (content_variants content) of
        Inl e \<Rightarrow> Inl e
      | Inr selected \<Rightarrow>
          (case find (\<lambda>v. strict_equals (value_of (variant_id v)) selected)
                  (content_variants content) of
             None \<Rightarrow>
               (case content_variants content of
                  [] \<Rightarrow> Inl TypeError
                | first # rest \<Rightarrow>
                    Inr \<lparr>resolved_sections = variant_sections first, variantId = variant_id first\<rparr>)
           | Some selectedVariant \<Rightarrow>
               Inr \<lparr>resolved_sections = variant_sections selectedVariant, variantId = selected\<rparr>))"

text \<open>
  \<open>resolveBlogPostVariant\<close> (line 67) mutates \<^verbatim>\<open>content\<close> and returns nothing: the model
  takes the record and returns the record as the call leaves it. \<open>blogVariantConfig\<close> is
  the callback of the \<^verbatim>\<open>map\<close> of line 70; it reads \<^verbatim>\<open>v.id\<close> and \<^verbatim>\<open>v.weight\<close> of an entry
  that nothing has checked, and converts them with \<^verbatim>\<open>String\<close> and \<^verbatim>\<open>Number\<close>, in this order.
\<close>

definition blogVariantConfig :: "runtime \<Rightarrow> js_value \<Rightarrow> js_error + string variant" where
  "blogVariantConfig rt v =
     (case get_prop v ''id'' of
        Inl e \<Rightarrow> Inl e
      | Inr i \<Rightarrow>
          (case js_String rt i of
             Inl e \<Rightarrow> Inl e
           | Inr selectable \<Rightarrow>
               (case get_prop v ''weight'' of
                  Inl e \<Rightarrow> Inl e
                | Inr w \<Rightarrow>
                    (case js_Number rt w of
                       Inl e \<Rightarrow> Inl e
                     | Inr n \<Rightarrow> Inr \<lparr>variant_id = selectable, weight = n\<rparr>))))"

definition resolveBlogPostVariant :: "runtime \<Rightarrow> js_object \<Rightarrow> js_number \<Rightarrow> js_error + js_object" where
  "resolveBlogPostVariant rt content bucket =
     (if \<not> truthy (own content ''multivariate'') \<or> \<not> isArray (own content ''variants'')
      then Inr content
      else
        let variants = elements (own content ''variants'') in
        case map_result (blogVariantConfig rt) variants of
          Inl e \<Rightarrow> Inl e
        | Inr variantConfigs \<Rightarrow>
            (case selectVariant bucket variantConfigs of
               Inl e \<Rightarrow> Inl e
             | Inr selectedId \<Rightarrow>
                 (case js_find_result
                         (\<lambda>v. case get_prop v ''id'' of
                                Inl e \<Rightarrow> Inl e
                              | Inr i \<Rightarrow> Inr (strict_equals i (PStr selectedId)))
                         variants of
                    Inl e \<Rightarrow> Inl e
                  | Inr selectedVariant \<Rightarrow>
                      (case (if truthy selectedVariant then
                               (case get_prop selectedVariant ''blocks'' of
                                  Inl e \<Rightarrow> Inl e
                                | Inr blocks \<Rightarrow> Inr (assign ''blocks'' blocks content))
                             else if length variants > 0 then
                               (case get_prop (variants ! 0) ''blocks'' of
                                  Inl e \<Rightarrow> Inl e
                                | Inr blocks \<Rightarrow> Inr (assign ''blocks'' blocks content))
                             else Inr content) of
                         Inl e \<Rightarrow> Inl e
                       | Inr content' \<Rightarrow>
                           Inr (delete_prop ''variants'' (delete_prop ''multivariate'' content'))))))"

text \<open>
  \<open>resolveBlockVariant\<close> (line 118) recurses into the children of layout blocks. Every
  property it reads is read from a value that passed \<open>isRecord\<close>, so it uses \<open>field\<close>;
  \<open>variantConfig\<close> is the callback of the \<^verbatim>\<open>map\<close> of line 127, applied to the entries
  that \<^verbatim>\<open>filter(isRecord)\<close> keeps; its \<^verbatim>\<open>String\<close> and \<^verbatim>\<open>Number\<close> can raise a \<^verbatim>\<open>TypeError\<close>,
  which ends the \<^verbatim>\<open>map\<close> and the resolution.
\<close>

lemma size_own: "size (own fs k) \<le> size_list (size_prod (\<lambda>x. 0) size) fs"
  by (induction fs) (auto simp: own_def)

lemma size_field: "size (field v k) \<le> size v"
  using size_own [of _ k] by (cases v) (auto simp: le_Suc_eq)

lemma size_elements: "x \<in> set (elements v) \<Longrightarrow> size x < size v"
  by (cases v) (auto simp: less_Suc_eq_le size_list_estimation')

definition variantConfig :: "runtime \<Rightarrow> js_value \<Rightarrow> js_error + string variant" where
  "variantConfig rt v =
     (case js_String rt (field v ''id'') of
        Inl e \<Rightarrow> Inl e
      | Inr selectable \<Rightarrow>
          (case js_Number rt (field v ''weight'') of
             Inl e \<Rightarrow> Inl e
           | Inr n \<Rightarrow> Inr \<lparr>variant_id = selectable, weight = n\<rparr>))"

function resolveBlockVariant :: "runtime \<Rightarrow> js_value \<Rightarrow> js_number \<Rightarrow> js_error + js_value" where
  "resolveBlockVariant rt block bucket =
     (if \<not> isRecord block then Inr block
      else
        let blockType = field block ''type'' in
        if strict_equals blockType (PStr ''form'') then
          (let data = field block ''data'' in
           if \<not> isRecord data \<or> \<not> strict_equals (field data ''multivariate'') (PBool True)
           then Inr block
           else
             let variants = field data ''variants'' in
             if \<not> isArray variants \<or> length (elements variants) = 0 then Inr block
             else
               case map_result (variantConfig rt) (filter isRecord (elements variants)) of
                 Inl e \<Rightarrow> Inl e
               | Inr variantConfigs \<Rightarrow>
                   (case selectVariant bucket variantConfigs of
                      Inl e \<Rightarrow> Inl e
                    | Inr selectedId \<Rightarrow>
                        let selectedVariant =
                              js_find (\<lambda>v. isRecord v \<and>
                                           strict_equals (field v ''id'') (PStr selectedId))
                                (elements variants)
                        in if \<not> truthy selectedVariant \<or> \<not> isRecord selectedVariant
                           then Inr block
                           else Inr (spread_with block ''data''
                                  (Obj [(''definition'', field data ''definition''),
                                        (''document'', field selectedVariant ''document'')]))))
        else
          let config = field block ''config'' in
          if \<not> isRecord config then Inr block
          else
            let childKey =
                  (if isArray (field config ''children'') then Some ''children''
                   else if isArray (field config ''child'') then Some ''child''
                   else None)
            in case childKey of
                 None \<Rightarrow> Inr block
               | Some key \<Rightarrow>
                   let children = field config key in
                   case map_result (\<lambda>child. resolveBlockVariant rt child bucket) (elements children) of
                     Inl e \<Rightarrow> Inl e
                   | Inr resolvedChildren \<Rightarrow>
                       Inr (spread_with block ''config''
                              (spread_with config key (Arr resolvedChildren))))"
  by pat_completeness auto
termination
proof (relation "measure (\<lambda>(rt, block, bucket). size block)")
  show "wf (measure (\<lambda>(rt, block, bucket). size block))" by simp
next
  fix rt block bucket blockType config childKey key children child
  assume "config = field block ''config''" "children = field config key"
    "child \<in> set (elements children)"
  then have "size child < size block"
    using size_elements [of child children] size_field [of config key] size_field [of block "''config''"]
    by simp
  then show "((rt, child, bucket), (rt, block, bucket)) \<in> measure (\<lambda>(rt, block, bucket). size block)"
    by simp
qed

declare resolveBlockVariant.simps [simp del]


text \<open>
  A multivariate form block is a block that passes the checks of lines 119 to 126: a
  record of type \<^verbatim>\<open>"form"\<close> whose \<^verbatim>\<open>data\<close> is a record with \<^verbatim>\<open>multivariate === true\<close>
  and a non-empty array \<^verbatim>\<open>variants\<close>.
\<close>

definition formVariants :: "js_value \<Rightarrow> js_value list" where
  "formVariants block = elements (field (field block ''data'') ''variants'')"

definition isMultivariateFormBlock :: "js_value \<Rightarrow> bool" where
  "isMultivariateFormBlock block =
     (isRecord block \<and> strict_equals (field block ''type'') (PStr ''form'') \<and>
      isRecord (field block ''data'') \<and>
      strict_equals (field (field block ''data'') ''multivariate'') (PBool True) \<and>
      isArray (field (field block ''data'') ''variants'') \<and>
      formVariants block \<noteq> [])"





section \<open>Properties of the resolvers\<close>

subsection \<open>Auxiliary facts\<close>

lemma selectVariant_Nil [simp]:
  "selectVariant bucket [] = Inl (Error ''selectVariant: variants array must not be empty'')"
  by (simp add: selectVariant_def)

lemma selectVariant_Inr_nonempty: "selectVariant bucket vs = Inr x \<Longrightarrow> vs \<noteq> []"
  by (auto simp: selectVariant_def)


lemma map_result_length: "map_result f xs = Inr ys \<Longrightarrow> length ys = length xs"
  by (induction xs arbitrary: ys) (auto split: sum.splits)

lemma map_result_Inr_all: "map_result f xs = Inr ys \<Longrightarrow> x \<in> set xs \<Longrightarrow> \<exists>y. f x = Inr y"
  by (induction xs arbitrary: ys) (auto split: sum.splits)




lemma has_key_delete_prop [simp]: "has_key (delete_prop k fs) k' \<longleftrightarrow> k' \<noteq> k \<and> has_key fs k'"
  by (induction fs) (auto simp: has_key_def delete_prop_def)

lemma own_has_key: "own fs k \<noteq> Undefined \<Longrightarrow> has_key fs k"
  by (auto simp: own_def has_key_def split: option.splits dest: map_of_SomeD intro: rev_image_eqI)

lemma js_find_none: "\<forall>v\<in>set xs. \<not> p v \<Longrightarrow> js_find p xs = Undefined"
  by (induction xs) simp_all

lemma js_find_result_none:
  "\<forall>v\<in>set xs. p v = Inr False \<Longrightarrow> js_find_result p xs = Inr Undefined"
  by (induction xs) simp_all

lemma blogVariantConfig_Inr: "blogVariantConfig rt v = Inr c \<Longrightarrow> get_prop v k = Inr (field v k)"
  by (cases v) (simp_all add: blogVariantConfig_def)













subsection \<open>The blog post resolver\<close>

text \<open>
  Claim C5. When \<^verbatim>\<open>content.multivariate\<close> is truthy (in particular \<^verbatim>\<open>true\<close>) and
  \<^verbatim>\<open>content.variants\<close> is the empty array, \<open>resolveBlogPostVariant\<close> passes the guard, maps
  the empty array to the empty list of configurations, calls \<open>selectVariant\<close> with it, and
  fails with the selector's empty-list error: the failure reaches the caller.
\<close>

theorem resolveBlogPostVariant_empty_variants:
  assumes "truthy (own content ''multivariate'')" and "own content ''variants'' = Arr []"
  shows "map_result (blogVariantConfig rt) (elements (own content ''variants'')) = Inr [] \<and>
         selectVariant bucket ([] :: string variant list)
           = Inl (Error ''selectVariant: variants array must not be empty'') \<and>
         resolveBlogPostVariant rt content bucket
           = Inl (Error ''selectVariant: variants array must not be empty'')"
  using assms by (simp add: resolveBlogPostVariant_def)

theorem resolveBlogPostVariant_empty_variants_witness:
  "\<forall>rt. truthy (own [(''multivariate'', Bool True), (''variants'', Arr [])] ''multivariate'') \<and>
     own [(''multivariate'', Bool True), (''variants'', Arr [])] ''variants'' = Arr [] \<and>
     resolveBlogPostVariant rt [(''multivariate'', Bool True), (''variants'', Arr [])] (Fin 0)
       = Inl (Error ''selectVariant: variants array must not be empty'')"
  using resolveBlogPostVariant_empty_variants
    [of "[(''multivariate'', Bool True), (''variants'', Arr [])]" _ "Fin 0"]
  by (simp add: own_def)

text \<open>
  Claim C8. When \<^verbatim>\<open>content.multivariate\<close> is falsy or \<^verbatim>\<open>content.variants\<close> is not an array
  (\<^verbatim>\<open>null\<close> included), the call returns and leaves the record as it was.
\<close>

theorem resolveBlogPostVariant_noop:
  assumes "\<not> truthy (own content ''multivariate'') \<or> \<not> isArray (own content ''variants'')"
  shows "resolveBlogPostVariant rt content bucket = Inr content"
  using assms by (auto simp: resolveBlogPostVariant_def)

theorem resolveBlogPostVariant_noop_witness:
  "\<forall>rt. resolveBlogPostVariant rt [(''multivariate'', Bool True), (''variants'', Null)] (Fin 0)
       = Inr [(''multivariate'', Bool True), (''variants'', Null)] \<and>
     resolveBlogPostVariant rt [(''blocks'', Arr [Obj [(''type'', Str ''existing'')]])] (Fin 0)
       = Inr [(''blocks'', Arr [Obj [(''type'', Str ''existing'')]])] \<and>
     resolveBlogPostVariant rt [(''multivariate'', Num (Fin 0)), (''variants'', Arr [])] (Fin 0)
       = Inr [(''multivariate'', Num (Fin 0)), (''variants'', Arr [])]"
  using resolveBlogPostVariant_noop [of "[(''multivariate'', Bool True), (''variants'', Null)]" _ "Fin 0"]
    resolveBlogPostVariant_noop [of "[(''blocks'', Arr [Obj [(''type'', Str ''existing'')]])]" _ "Fin 0"]
    resolveBlogPostVariant_noop [of "[(''multivariate'', Num (Fin 0)), (''variants'', Arr [])]" _ "Fin 0"]
  by (simp add: own_def)

text \<open>
  Claim C6, as amended. When \<^verbatim>\<open>content.multivariate\<close> is truthy and \<^verbatim>\<open>content.variants\<close>
  is an array, a call that returns has changed the record, which then carries neither
  the key \<^verbatim>\<open>multivariate\<close> nor the key \<^verbatim>\<open>variants\<close>.
\<close>

theorem resolveBlogPostVariant_removes_keys:
  assumes "truthy (own content ''multivariate'')" and "isArray (own content ''variants'')"
    and "resolveBlogPostVariant rt content bucket = Inr content'"
  shows "\<not> has_key content' ''multivariate'' \<and> \<not> has_key content' ''variants'' \<and> content' \<noteq> content"
proof -
  from assms obtain c where c: "content' = delete_prop ''variants'' (delete_prop ''multivariate'' c)"
    by (auto simp: resolveBlogPostVariant_def Let_def split: sum.splits if_splits)
  have "own content ''variants'' \<noteq> Undefined" using assms(2) by auto
  then have "has_key content ''variants''" by (rule own_has_key)
  moreover have "\<not> has_key content' ''variants''" "\<not> has_key content' ''multivariate''"
    by (simp_all add: c)
  ultimately show ?thesis by auto
qed

theorem resolveBlogPostVariant_removes_keys_witness:
  "\<forall>rt.
     truthy (own [(''multivariate'', Bool True),
                  (''variants'', Arr [Obj [(''id'', Str ''a''), (''weight'', Num (Fin 100)),
                                           (''blocks'', Arr [Obj [(''type'', Str ''x'')]])]])]
               ''multivariate'') \<and>
     resolveBlogPostVariant rt
       [(''multivariate'', Bool True),
        (''variants'', Arr [Obj [(''id'', Str ''a''), (''weight'', Num (Fin 100)),
                                 (''blocks'', Arr [Obj [(''type'', Str ''x'')]])]])]
       (Fin 0)
       = Inr [(''blocks'', Arr [Obj [(''type'', Str ''x'')]])] \<and>
     \<not> has_key [(''blocks'', Arr [Obj [(''type'', Str ''x'')]])] ''multivariate'' \<and>
     \<not> has_key [(''blocks'', Arr [Obj [(''type'', Str ''x'')]])] ''variants''"
proof
  fix rt
  let ?content = "[(''multivariate'', Bool True),
        (''variants'', Arr [Obj [(''id'', Str ''a''), (''weight'', Num (Fin 100)),
                                 (''blocks'', Arr [Obj [(''type'', Str ''x'')]])]])]"
  let ?result = "[(''blocks'', Arr [Obj [(''type'', Str ''x'')]])]"
  have t: "truthy (own ?content ''multivariate'')" by (simp add: own_def)
  have a: "isArray (own ?content ''variants'')" by (simp add: own_def)
  have r: "resolveBlogPostVariant rt ?content (Fin 0) = Inr ?result"
    by (simp add: resolveBlogPostVariant_def own_def blogVariantConfig_def selectVariant_def
        totalWeight_def delete_prop_def)
  from resolveBlogPostVariant_removes_keys [OF t a r] t r
  show "truthy (own ?content ''multivariate'') \<and>
     resolveBlogPostVariant rt ?content (Fin 0) = Inr ?result \<and>
     \<not> has_key ?result ''multivariate'' \<and> \<not> has_key ?result ''variants''"
    by simp
qed

text \<open>
  Claim C6 as stated, for every content record, fails: on the guard's no-op path the call
  returns and the record still carries both keys (the record of the repository's test
  "is no-op for non-multivariate content").
\<close>

theorem resolveBlogPostVariant_keeps_keys_counterexample:
  "\<forall>rt.
     resolveBlogPostVariant rt [(''multivariate'', Bool False), (''variants'', Arr [])] (Fin 0)
       = Inr [(''multivariate'', Bool False), (''variants'', Arr [])] \<and>
     has_key [(''multivariate'', Bool False), (''variants'', Arr [])] ''multivariate'' \<and>
     has_key [(''multivariate'', Bool False), (''variants'', Arr [])] ''variants''"
  by (simp add: resolveBlogPostVariant_def own_def has_key_def)

text \<open>
  Claim C2 says that the selector's empty-list error is the only error any operation
  raises. The blog post resolver raises another one: an entry of \<^verbatim>\<open>variants\<close> that is
  \<^verbatim>\<open>null\<close> makes the callback of line 70 read \<^verbatim>\<open>v.id\<close> of \<^verbatim>\<open>null\<close>, a \<^verbatim>\<open>TypeError\<close>.
  The tree resolver filters such entries out with \<open>isRecord\<close> before it maps them.
\<close>

theorem resolveBlogPostVariant_null_entry:
  "resolveBlogPostVariant rt [(''multivariate'', Bool True), (''variants'', Arr [Null])] (Fin 0)
     = Inl TypeError"
  by (simp add: resolveBlogPostVariant_def own_def blogVariantConfig_def)

theorem resolveBlogPostVariant_null_entry_witness:
  "\<forall>rt.
     truthy (own [(''multivariate'', Bool True), (''variants'', Arr [Null])] ''multivariate'') \<and>
     isArray (own [(''multivariate'', Bool True), (''variants'', Arr [Null])] ''variants'') \<and>
     resolveBlogPostVariant rt [(''multivariate'', Bool True), (''variants'', Arr [Null])] (Fin 0)
       = Inl TypeError \<and>
     Inl TypeError \<noteq> (Inl (Error ''selectVariant: variants array must not be empty'')
                         :: js_error + js_object)"
  using resolveBlogPostVariant_null_entry by (simp add: own_def)

subsection \<open>Lookups that find no variant\<close>

lemma formBlock_unmatched:
  assumes "isMultivariateFormBlock block"
    and "map_result (variantConfig rt) (filter isRecord (formVariants block)) = Inr configs"
    and "selectVariant bucket configs = Inr selectedId"
    and "\<forall>v\<in>set (formVariants block).
           \<not> (isRecord v \<and> strict_equals (field v ''id'') (PStr selectedId))"
  shows "resolveBlockVariant rt block bucket = Inr block"
proof -
  have "js_find (\<lambda>v. isRecord v \<and> strict_equals (field v ''id'') (PStr selectedId))
          (formVariants block) = Undefined"
    using assms(4) by (rule js_find_none)
  with assms(1-3) show ?thesis
    by (subst resolveBlockVariant.simps)
      (simp add: isMultivariateFormBlock_def formVariants_def Let_def)
qed

lemma page_unmatched:
  assumes "selectVariant bucket (content_variants content) = Inr selected"
    and "\<forall>v\<in>set (content_variants content). \<not> strict_equals (value_of (variant_id v)) selected"
  shows "resolvePageVariant content bucket =
           Inr \<lparr>resolved_sections = variant_sections (content_variants content ! 0),
                variantId = variant_id (content_variants content ! 0)\<rparr>"
proof -
  from assms(1) have "content_variants content \<noteq> []" by (rule selectVariant_Inr_nonempty)
  then obtain first rest where v: "content_variants content = first # rest"
    by (cases "content_variants content") auto
  have "find (\<lambda>v. strict_equals (value_of (variant_id v)) selected) (content_variants content) = None"
    using assms(2) by (simp add: find_None_iff)
  with assms(1) show ?thesis
    by (simp add: resolvePageVariant_def v)
qed

lemma blog_unmatched:
  assumes "truthy (own post ''multivariate'')" and "own post ''variants'' = Arr vs"
    and "map_result (blogVariantConfig rt) vs = Inr configs"
    and "selectVariant bucket configs = Inr selectedId"
    and "\<forall>v\<in>set vs. \<not> strict_equals (field v ''id'') (PStr selectedId)"
  shows "resolveBlogPostVariant rt post bucket =
           Inr (delete_prop ''variants'' (delete_prop ''multivariate''
                  (assign ''blocks'' (field (vs ! 0) ''blocks'') post)))"
proof -
  have ok: "get_prop v k = Inr (field v k)" if "v \<in> set vs" for v k
    using map_result_Inr_all [OF assms(3) that] by (auto dest: blogVariantConfig_Inr)
  from assms(4) have "configs \<noteq> []" by (rule selectVariant_Inr_nonempty)
  with map_result_length [OF assms(3)] have ne: "vs \<noteq> []" by auto
  then have first: "get_prop (vs ! 0) ''blocks'' = Inr (field (vs ! 0) ''blocks'')"
    by (intro ok) simp
  have "js_find_result
          (\<lambda>v. case get_prop v ''id'' of Inl e \<Rightarrow> Inl e
                | Inr i \<Rightarrow> Inr (strict_equals i (PStr selectedId))) vs = Inr Undefined"
    using assms(5) by (intro js_find_result_none) (simp add: ok)
  with assms(1-4) ne first show ?thesis
    by (simp add: resolveBlogPostVariant_def)
qed

text \<open>
  Claim C7. In the tree resolver, when the conversions of the block's record variants
  succeed and the selected id (a string, after \<^verbatim>\<open>String\<close>) equals the \<^verbatim>\<open>id\<close> field of no
  record among the block's variants, a multivariate form block is returned unchanged:
  there is no fallback. The page resolver and the blog post resolver fall back to the
  first variant when their lookup finds nothing: the page resolver returns the first
  variant's sections and id, the blog post resolver installs the first variant's blocks.
\<close>

theorem unmatched_id_handling:
  "(isMultivariateFormBlock block \<and>
      map_result (variantConfig rt) (filter isRecord (formVariants block)) = Inr blockConfigs \<and>
      selectVariant bucket blockConfigs = Inr selectedId \<and>
      (\<forall>v\<in>set (formVariants block).
         \<not> (isRecord v \<and> strict_equals (field v ''id'') (PStr selectedId)))
    \<longrightarrow> resolveBlockVariant rt block bucket = Inr block) \<and>
   (selectVariant bucket (content_variants content) = Inr selected \<and>
      (\<forall>v\<in>set (content_variants content). \<not> strict_equals (value_of (variant_id v)) selected)
    \<longrightarrow> resolvePageVariant content bucket =
           Inr \<lparr>resolved_sections = variant_sections (content_variants content ! 0),
                variantId = variant_id (content_variants content ! 0)\<rparr>) \<and>
   (truthy (own post ''multivariate'') \<and> own post ''variants'' = Arr vs \<and>
      map_result (blogVariantConfig rt) vs = Inr configs \<and>
      selectVariant bucket configs = Inr postId \<and>
      (\<forall>v\<in>set vs. \<not> strict_equals (field v ''id'') (PStr postId))
    \<longrightarrow> resolveBlogPostVariant rt post bucket =
           Inr (delete_prop ''variants'' (delete_prop ''multivariate''
                  (assign ''blocks'' (field (vs ! 0) ''blocks'') post))))"
proof (intro conjI impI)
  assume "isMultivariateFormBlock block \<and>
      map_result (variantConfig rt) (filter isRecord (formVariants block)) = Inr blockConfigs \<and>
      selectVariant bucket blockConfigs = Inr selectedId \<and>
      (\<forall>v\<in>set (formVariants block).
         \<not> (isRecord v \<and> strict_equals (field v ''id'') (PStr selectedId)))"
  then show "resolveBlockVariant rt block bucket = Inr block"
    by (intro formBlock_unmatched [of block rt blockConfigs bucket selectedId]) simp_all
next
  assume "selectVariant bucket (content_variants content) = Inr selected \<and>
      (\<forall>v\<in>set (content_variants content). \<not> strict_equals (value_of (variant_id v)) selected)"
  then show "resolvePageVariant content bucket =
           Inr \<lparr>resolved_sections = variant_sections (content_variants content ! 0),
                variantId = variant_id (content_variants content ! 0)\<rparr>"
    by (intro page_unmatched [of bucket content selected]) simp_all
next
  assume "truthy (own post ''multivariate'') \<and> own post ''variants'' = Arr vs \<and>
      map_result (blogVariantConfig rt) vs = Inr configs \<and>
      selectVariant bucket configs = Inr postId \<and>
      (\<forall>v\<in>set vs. \<not> strict_equals (field v ''id'') (PStr postId))"
  then show "resolveBlogPostVariant rt post bucket =
           Inr (delete_prop ''variants'' (delete_prop ''multivariate''
                  (assign ''blocks'' (field (vs ! 0) ''blocks'') post)))"
    by (intro blog_unmatched [of post vs rt configs bucket postId]) simp_all
qed

theorem unmatched_id_handling_witness:
  "\<forall>rt.
     isMultivariateFormBlock
       (Obj [(''type'', Str ''form''),
             (''data'', Obj [(''definition'', Obj []), (''multivariate'', Bool True),
                (''variants'', Arr [Obj [(''id'', Num (Fin 1)), (''weight'', Num (Fin 100)),
                                         (''document'', Obj [])]])])]) \<and>
     resolveBlockVariant rt
       (Obj [(''type'', Str ''form''),
             (''data'', Obj [(''definition'', Obj []), (''multivariate'', Bool True),
                (''variants'', Arr [Obj [(''id'', Num (Fin 1)), (''weight'', Num (Fin 100)),
                                         (''document'', Obj [])]])])]) (Fin 0)
       = Inr (Obj [(''type'', Str ''form''),
             (''data'', Obj [(''definition'', Obj []), (''multivariate'', Bool True),
                (''variants'', Arr [Obj [(''id'', Num (Fin 1)), (''weight'', Num (Fin 100)),
                                         (''document'', Obj [])]])])]) \<and>
     selectVariant (Fin 0)
       [\<lparr>variant_id = PNum NaN, weight = Fin 100, variant_sections = Arr [Str ''s'']\<rparr>]
       = Inr (PNum NaN) \<and>
     resolvePageVariant
       \<lparr>content_variants =
          [\<lparr>variant_id = PNum NaN, weight = Fin 100, variant_sections = Arr [Str ''s'']\<rparr>]\<rparr> (Fin 0)
       = Inr \<lparr>resolved_sections = Arr [Str ''s''], variantId = PNum NaN\<rparr> \<and>
     resolveBlogPostVariant rt
       [(''multivariate'', Bool True),
        (''variants'', Arr [Obj [(''id'', Num (Fin 123)), (''weight'', Num (Fin 100)),
                                 (''blocks'', Arr [Obj [(''type'', Str ''fallback-block'')]])]])]
       (Fin 0)
       = Inr [(''blocks'', Arr [Obj [(''type'', Str ''fallback-block'')]])]"
proof
  fix rt
  let ?v = "Obj [(''id'', Num (Fin 1)), (''weight'', Num (Fin 100)), (''document'', Obj [])]"
  let ?block = "Obj [(''type'', Str ''form''),
             (''data'', Obj [(''definition'', Obj []), (''multivariate'', Bool True),
                (''variants'', Arr [?v])])]"
  let ?pv = "\<lparr>variant_id = PNum NaN, weight = Fin 100, variant_sections = Arr [Str ''s'']\<rparr>"
  let ?content = "\<lparr>content_variants = [?pv]\<rparr>"
  let ?w = "Obj [(''id'', Num (Fin 123)), (''weight'', Num (Fin 100)),
                 (''blocks'', Arr [Obj [(''type'', Str ''fallback-block'')]])]"
  let ?post = "[(''multivariate'', Bool True), (''variants'', Arr [?w])]"
  note T = unmatched_id_handling [of ?block rt
      "[\<lparr>variant_id = numberToString rt (Fin 1), weight = Fin 100\<rparr>]" "Fin 0"
      "numberToString rt (Fin 1)"
      ?content "PNum NaN" ?post "[?w]"
      "[\<lparr>variant_id = numberToString rt (Fin 123), weight = Fin 100\<rparr>]"
      "numberToString rt (Fin 123)"]
  have mv: "isMultivariateFormBlock ?block"
    by (simp add: isMultivariateFormBlock_def formVariants_def own_def)
  have fv: "formVariants ?block = [?v]"
    by (simp add: formVariants_def own_def)
  have sel: "selectVariant (Fin 0) [\<lparr>variant_id = i, weight = Fin 100\<rparr>] = Inr i" for i :: string
    by (simp add: selectVariant_def totalWeight_def)
  have psel: "selectVariant (Fin 0) [?pv] = Inr (PNum NaN)"
    by (simp add: selectVariant_def totalWeight_def)
  have b: "resolveBlockVariant rt ?block (Fin 0) = Inr ?block"
    by (rule T [THEN conjunct1, rule_format])
      (simp add: mv fv variantConfig_def own_def sel)
  have p: "resolvePageVariant ?content (Fin 0)
      = Inr \<lparr>resolved_sections = variant_sections ([?pv] ! 0), variantId = variant_id ([?pv] ! 0)\<rparr>"
    using T [THEN conjunct2, THEN conjunct1, rule_format] psel by simp
  have g: "resolveBlogPostVariant rt ?post (Fin 0)
      = Inr (delete_prop ''variants'' (delete_prop ''multivariate''
               (assign ''blocks'' (field ([?w] ! 0) ''blocks'') ?post)))"
    by (rule T [THEN conjunct2, THEN conjunct2, rule_format])
      (simp add: own_def blogVariantConfig_def sel)
  from mv b psel p g
  show "isMultivariateFormBlock ?block \<and>
     resolveBlockVariant rt ?block (Fin 0) = Inr ?block \<and>
     selectVariant (Fin 0) [?pv] = Inr (PNum NaN) \<and>
     resolvePageVariant ?content (Fin 0)
       = Inr \<lparr>resolved_sections = Arr [Str ''s''], variantId = PNum NaN\<rparr> \<and>
     resolveBlogPostVariant rt ?post (Fin 0)
       = Inr [(''blocks'', Arr [Obj [(''type'', Str ''fallback-block'')]])]"
    by (simp add: delete_prop_def own_def)
qed

subsection \<open>Form blocks whose variants are not records\<close>






end
